theory Spec2Isabelle
  imports Complex_Main "HOL-Library.Multiset" "HOL-Library.Log_Nat"
begin

section \<open>Dates and the due-date classifier\<close>

text \<open>
  A JavaScript \<open>Date\<close> is modelled by its time value, the number of milliseconds since the
  epoch (\<open>getTime()\<close>). The subscriptions of the store carry a non-null timestamp column, so
  every \<open>nextPaymentDate\<close> read back from the API is a valid date.
\<close>

type_synonym timestamp = int

definition MS_PER_DAY :: int where
  "MS_PER_DAY = 1000 * 60 * 60 * 24"

text \<open>
  \<open>Math.ceil(a / b)\<close> for integers \<open>a\<close> and \<open>b > 0\<close>. The source subtracts two time values
  and divides doubles before rounding up. A time value is at most \<open>8.64e15\<close> in magnitude
  and \<open>now\<close> is a current time, so the difference is an integer below \<open>2^53\<close>, and for the
  divisors used here the rounding of the quotient never crosses an integer: the result is
  the exact ceiling. \<open>Math.ceil\<close> may return \<open>-0\<close>, which compares like \<open>0\<close>.
\<close>

definition ceil_div :: "int \<Rightarrow> int \<Rightarrow> int" where
  "ceil_div a b = - ((- a) div b)"

definition diffDays :: "timestamp \<Rightarrow> timestamp \<Rightarrow> int" where
  "diffDays paymentDate now = ceil_div (paymentDate - now) MS_PER_DAY"

text \<open>Decimal rendering of an integer inside a template literal.\<close>

definition digit_char :: "nat \<Rightarrow> char" where
  "digit_char n = ''0123456789'' ! n"

function digits_of_int :: "int \<Rightarrow> string" where
  "digits_of_int n =
     (if n < 10 then [digit_char (nat n)]
      else digits_of_int (n div 10) @ [digit_char (nat (n mod 10))])"
  by pat_completeness auto
termination
  by (relation "measure nat") auto

definition show_int :: "int \<Rightarrow> string" where
  "show_int i = (if i < 0 then CHR ''-'' # digits_of_int (- i) else digits_of_int i)"

record due_info =
  due_text :: string
  urgent :: bool

text \<open>\<open>getDueText\<close> of subscription-card.tsx, with \<open>now\<close> made a parameter.\<close>

definition getDueText :: "timestamp \<Rightarrow> timestamp \<Rightarrow> due_info" where
  "getDueText nextPaymentDate now =
     (let d = diffDays nextPaymentDate now in
      if d < 0 then \<lparr>due_text = ''Overdue'', urgent = True\<rparr>
      else if d = 0 then \<lparr>due_text = ''Due today'', urgent = True\<rparr>
      else if d = 1 then \<lparr>due_text = ''Due tomorrow'', urgent = True\<rparr>
      else if d \<le> 7 then \<lparr>due_text = ''Due in '' @ show_int d @ '' days'', urgent = False\<rparr>
      else \<lparr>due_text = ''Due in '' @ show_int (ceil_div d 7) @ '' week''
                   @ (if d > 14 then ''s'' else ''''),
             urgent = False\<rparr>)"


section \<open>JavaScript numbers\<close>

text \<open>
  A JavaScript number is an IEEE 754 binary64 value. A finite one is modelled by the
  rational it denotes, the others by \<open>PosInf\<close>, \<open>NegInf\<close> and \<open>NaN\<close>. The sign of zero is not
  modelled: both zeros are \<open>Num 0\<close>.
\<close>

datatype number = Num rat | PosInf | NegInf | NaN

text \<open>\<open>ilog2 x\<close> is the binary exponent of a positive rational: \<open>2^k \<le> x < 2^(k+1)\<close>.\<close>

definition ilog2 :: "rat \<Rightarrow> int" where
  "ilog2 x =
     (let k = bitlen (fst (quotient_of x)) - bitlen (snd (quotient_of x))
      in if 2 powi k \<le> x then k else k - 1)"

text \<open>Rounding to the nearest integer, ties to the even one.\<close>

definition round_half_even :: "rat \<Rightarrow> int" where
  "round_half_even x =
     (let f = \<lfloor>x\<rfloor>; d = x - of_int f
      in if d < 1 / 2 then f
         else if 1 / 2 < d then f + 1
         else if even f then f else f + 1)"

text \<open>
  The nearest binary64 value of a positive rational, before the overflow test: a 53-bit
  significand at the exponent of \<open>x\<close>, or at the least exponent \<open>-1074\<close> for subnormal results.
\<close>

definition round_pos :: "rat \<Rightarrow> rat" where
  "round_pos x =
     (let e = max (ilog2 x - 52) (- 1074)
      in of_int (round_half_even (x / 2 powi e)) * 2 powi e)"

text \<open>Round to nearest, ties to even, with overflow to the infinities.\<close>

definition fl :: "rat \<Rightarrow> number" where
  "fl x =
     (if x = 0 then Num 0
      else if 0 < x then (let v = round_pos x in if 2 ^ 1024 \<le> v then PosInf else Num v)
      else (let v = round_pos (- x) in if 2 ^ 1024 \<le> v then NegInf else Num (- v)))"

fun num_add :: "number \<Rightarrow> number \<Rightarrow> number" where
  "num_add (Num a) (Num b) = fl (a + b)"
| "num_add NaN _ = NaN"
| "num_add _ NaN = NaN"
| "num_add PosInf NegInf = NaN"
| "num_add NegInf PosInf = NaN"
| "num_add PosInf _ = PosInf"
| "num_add _ PosInf = PosInf"
| "num_add NegInf _ = NegInf"
| "num_add _ NegInf = NegInf"

fun num_mul :: "number \<Rightarrow> number \<Rightarrow> number" where
  "num_mul (Num a) (Num b) = fl (a * b)"
| "num_mul NaN _ = NaN"
| "num_mul _ NaN = NaN"
| "num_mul PosInf (Num b) = (if b = 0 then NaN else if 0 < b then PosInf else NegInf)"
| "num_mul NegInf (Num b) = (if b = 0 then NaN else if 0 < b then NegInf else PosInf)"
| "num_mul (Num a) PosInf = (if a = 0 then NaN else if 0 < a then PosInf else NegInf)"
| "num_mul (Num a) NegInf = (if a = 0 then NaN else if 0 < a then NegInf else PosInf)"
| "num_mul PosInf PosInf = PosInf"
| "num_mul NegInf NegInf = PosInf"
| "num_mul PosInf NegInf = NegInf"
| "num_mul NegInf PosInf = NegInf"

text \<open>
  Division never raises in JavaScript: a zero divisor gives an infinity or \<open>NaN\<close>. (With the
  sign of zero not modelled, a zero divisor counts as \<open>+0\<close>.)
\<close>

fun num_div :: "number \<Rightarrow> number \<Rightarrow> number" where
  "num_div (Num a) (Num b) =
     (if b = 0 then (if a = 0 then NaN else if 0 < a then PosInf else NegInf)
      else fl (a / b))"
| "num_div NaN _ = NaN"
| "num_div _ NaN = NaN"
| "num_div (Num a) PosInf = Num 0"
| "num_div (Num a) NegInf = Num 0"
| "num_div PosInf (Num b) = (if 0 \<le> b then PosInf else NegInf)"
| "num_div NegInf (Num b) = (if 0 \<le> b then NegInf else PosInf)"
| "num_div _ _ = NaN"


section \<open>The schema: rows and request payloads\<close>

text \<open>
  A \<open>decimal(10, 2)\<close> column holds a fixed-point number with two fraction digits, modelled
  by the integer number of hundredths, or the special value \<open>NaN\<close>, which the database
  stores in a numeric column as well.
\<close>

datatype decimal2 = Dec int | DecNaN

fun cents :: "decimal2 \<Rightarrow> int" where
  "cents (Dec a) = a"
| "cents DecNaN = 0"

text \<open>A row of the \<open>subscriptions\<close> table (the type \<open>Subscription\<close>).\<close>

record subscription =
  sub_id :: string
  userId :: string
  name :: string
  amount :: decimal2
  currency :: string
  billingPeriod :: string
  nextPaymentDate :: timestamp
  reminderDays :: int
  description :: "string option"
  emailNotifications :: bool
  pushNotifications :: bool
  isActive :: bool
  createdAt :: "timestamp option"
  updatedAt :: "timestamp option"

text \<open>
  A request body is parsed JSON: an object, that is a finite map from property names to
  values. The values that the schemas tell apart are strings, booleans, numbers and
  \<open>null\<close>; anything else (an array, an object) is \<open>JOther\<close>. Parsed JSON holds no \<open>Date\<close> object:
  a date arrives as a string.
\<close>

datatype jsval = JNull | JBool bool | JNumber number | JString string | JOther

type_synonym body = "string \<rightharpoonup> jsval"

text \<open>
  \<open>createInsertSchema\<close> derives one check per column from the column's data type:
  \<open>varchar\<close> and \<open>decimal\<close> columns take a string, \<open>boolean\<close> columns a boolean, \<open>integer\<close>
  columns an integral number in the range of a 32-bit integer, \<open>timestamp\<close> columns a \<open>Date\<close>
  object with a valid time. No value of a JSON body is a \<open>Date\<close> object, so the check of a
  \<open>timestamp\<close> column passes for none of them.
\<close>

fun as_string :: "jsval \<Rightarrow> string option" where
  "as_string (JString s) = Some s"
| "as_string _ = None"

fun as_boolean :: "jsval \<Rightarrow> bool option" where
  "as_boolean (JBool b) = Some b"
| "as_boolean _ = None"

fun as_integer :: "jsval \<Rightarrow> int option" where
  "as_integer (JNumber (Num r)) =
     (if of_int \<lfloor>r\<rfloor> = r \<and> - 2147483648 \<le> \<lfloor>r\<rfloor> \<and> \<lfloor>r\<rfloor> \<le> 2147483647 then Some \<lfloor>r\<rfloor>
      else None)"
| "as_integer _ = None"

fun as_date :: "jsval \<Rightarrow> timestamp option" where
  "as_date _ = None"


text \<open>
  A column with a default is an optional property: absent is fine (\<open>Some None\<close>), present
  must have the column's type.
\<close>

definition optional :: "(jsval \<Rightarrow> 'a option) \<Rightarrow> jsval option \<Rightarrow> 'a option option" where
  "optional dec v =
     (case v of None \<Rightarrow> Some None
      | Some j \<Rightarrow> (case dec j of None \<Rightarrow> None | Some a \<Rightarrow> Some (Some a)))"

text \<open>A nullable column is optional and also takes \<open>null\<close>.\<close>

definition nullable :: "(jsval \<Rightarrow> 'a option) \<Rightarrow> jsval option \<Rightarrow> 'a option option" where
  "nullable dec v = (case v of Some JNull \<Rightarrow> Some None | _ \<Rightarrow> optional dec v)"

datatype zod_error = ZodError



text \<open>\<open>insertSubscriptionSchema.partial()\<close>: every property optional.\<close>

record partial_subscription =
  p_name :: "string option"
  p_amount :: "string option"
  p_currency :: "string option"
  p_billingPeriod :: "string option"
  p_nextPaymentDate :: "timestamp option"
  p_reminderDays :: "int option"
  p_description :: "string option option"
  p_emailNotifications :: "bool option"
  p_pushNotifications :: "bool option"
  p_isActive :: "bool option"

definition partialSubscriptionSchema_parse :: "body \<Rightarrow> zod_error + partial_subscription" where
  "partialSubscriptionSchema_parse b =
     (case (optional as_string (b ''name''), optional as_string (b ''amount''),
            optional as_string (b ''currency''), optional as_string (b ''billingPeriod''),
            optional as_date (b ''nextPaymentDate''), optional as_integer (b ''reminderDays''),
            (case b ''description'' of None \<Rightarrow> Some None
             | Some j \<Rightarrow> map_option Some (nullable as_string (Some j))),
            optional as_boolean (b ''emailNotifications''),
            optional as_boolean (b ''pushNotifications''),
            optional as_boolean (b ''isActive'')) of
        (Some n, Some a, Some c, Some p, Some d, Some r, Some ds, Some e, Some pn, Some ac) \<Rightarrow>
          Inr \<lparr>p_name = n, p_amount = a, p_currency = c, p_billingPeriod = p,
               p_nextPaymentDate = d, p_reminderDays = r, p_description = ds,
               p_emailNotifications = e, p_pushNotifications = pn, p_isActive = ac\<rparr>
      | _ \<Rightarrow> Inl ZodError)"


section \<open>The subscription storage\<close>

text \<open>
  The database converts the text of an amount to the \<open>decimal(10, 2)\<close> column. It reads,
  between optional blanks, either \<open>NaN\<close> (in any case) or a decimal number: an optional sign,
  digits with an optional point (at least one digit), and an optional exponent. The number
  is rounded half away from zero to two fraction digits and must then have at most eight
  digits before the point. \<open>None\<close> is the error the database raises otherwise; the
  infinities, which cannot be stored in the column, are among the errors. The digit-group
  underscores and the hexadecimal, octal and binary integers that later versions of the
  database also read are not modelled.
\<close>

definition digit_of :: "char \<Rightarrow> int option" where
  "digit_of c = map_of (zip ''0123456789'' [0, 1, 2, 3, 4, 5, 6, 7, 8, 9]) c"

definition is_digit :: "char \<Rightarrow> bool" where
  "is_digit c = (digit_of c \<noteq> None)"

fun digits_val :: "string \<Rightarrow> int \<Rightarrow> int option" where
  "digits_val [] acc = Some acc"
| "digits_val (c # cs) acc =
     (case digit_of c of None \<Rightarrow> None | Some d \<Rightarrow> digits_val cs (10 * acc + d))"

definition is_space :: "char \<Rightarrow> bool" where
  "is_space c = (c \<in> set [CHR '' '', CHR 0x09, CHR 0x0A, CHR 0x0B, CHR 0x0C, CHR 0x0D])"

definition trim :: "string \<Rightarrow> string" where
  "trim s = rev (dropWhile is_space (rev (dropWhile is_space s)))"

definition lower :: "char \<Rightarrow> char" where
  "lower c =
     (case map_of (zip ''ABCDEFGHIJKLMNOPQRSTUVWXYZ'' ''abcdefghijklmnopqrstuvwxyz'') c of
        Some d \<Rightarrow> d
      | None \<Rightarrow> c)"

text \<open>An optional sign in front of a text: whether it is a minus, and the rest.\<close>

definition split_sign :: "string \<Rightarrow> bool \<times> string" where
  "split_sign s =
     (case s of
        [] \<Rightarrow> (False, [])
      | c # r \<Rightarrow> if c = CHR ''-'' then (True, r) else if c = CHR ''+'' then (False, r)
                 else (False, s))"

text \<open>
  The exponent part: nothing, or \<open>e\<close> and a signed integer that stays within the bounds
  the database puts on an exponent.
\<close>

definition exponent_of :: "string \<Rightarrow> int option" where
  "exponent_of s =
     (case s of
        [] \<Rightarrow> Some 0
      | c # r \<Rightarrow>
          if lower c = CHR ''e'' \<and> snd (split_sign r) \<noteq> [] then
            (case digits_val (snd (split_sign r)) 0 of
               None \<Rightarrow> None
             | Some e \<Rightarrow> if 2 ^ 30 \<le> e then None
                         else Some (if fst (split_sign r) then - e else e))
          else None)"

text \<open>
  The hundredths of \<open>m * 10 ^ k / 100\<close> for a magnitude \<open>m\<close> written with \<open>len\<close> digits,
  rounded half away from zero; \<open>None\<close> when they do not fit the column. (A magnitude
  shifted beyond its own length rounds to zero, and one shifted up by more than ten digits
  cannot fit: the power is only computed in between.)
\<close>

definition scale_round :: "int \<Rightarrow> int \<Rightarrow> int \<Rightarrow> int option" where
  "scale_round m len k =
     (let c = (if m = 0 then 0
               else if 0 \<le> k then (if 10 < k then 10 ^ 10 else m * 10 ^ nat k)
               else if len + 1 < - k then 0
               else (2 * m + 10 ^ nat (- k)) div (2 * 10 ^ nat (- k)))
      in if 10 ^ 10 \<le> c then None else Some c)"

definition numeric_in :: "string \<Rightarrow> decimal2 option" where
  "numeric_in s =
     (let t = trim s in
      if map lower t = ''nan'' then Some DecNaN
      else
        (let neg = fst (split_sign t);
             r = snd (split_sign t);
             ip = takeWhile is_digit r;
             r1 = dropWhile is_digit r;
             fp = (if r1 \<noteq> [] \<and> hd r1 = CHR ''.'' then takeWhile is_digit (tl r1) else []);
             r2 = (if r1 \<noteq> [] \<and> hd r1 = CHR ''.'' then dropWhile is_digit (tl r1) else r1)
         in if ip = [] \<and> fp = [] then None
            else (case (digits_val (ip @ fp) 0, exponent_of r2) of
                    (Some m, Some e) \<Rightarrow>
                      (case scale_round m (int (length (ip @ fp))) (e - int (length fp) + 2) of
                         None \<Rightarrow> None
                       | Some c \<Rightarrow> Some (Dec (if neg then - c else c)))
                  | _ \<Rightarrow> None)))"

text \<open>
  A date is written to the database in ISO form with a four-digit year: the database
  raises an error for a date outside the years 0001 to 9999.
\<close>

definition storable_date :: "timestamp \<Rightarrow> bool" where
  "storable_date t = (- 62135596800000 \<le> t \<and> t \<le> 253402300799999)"

datatype store_error = StoreError

type_synonym subscriptions_table = "subscription list"

text \<open>
  The queries of \<open>DatabaseStorage\<close>. \<open>now\<close> stands for \<open>new Date()\<close> and for the
  database's \<open>defaultNow()\<close>, \<open>gen_id\<close> for the value of \<open>gen_random_uuid()\<close>. The table is
  the list of its rows; \<open>orderBy\<close> is a stable sort, so rows with the same date keep the
  order of the table (the database leaves their order open).
\<close>

definition getSubscriptions :: "subscriptions_table \<Rightarrow> string \<Rightarrow> subscription list" where
  "getSubscriptions db uid =
     sort_key nextPaymentDate (filter (\<lambda>s. userId s = uid \<and> isActive s = True) db)"

definition getUpcomingSubscriptions ::
  "subscriptions_table \<Rightarrow> timestamp \<Rightarrow> string \<Rightarrow> nat \<Rightarrow> subscription list" where
  "getUpcomingSubscriptions db now uid limit =
     take limit (sort_key nextPaymentDate
       (filter (\<lambda>s. userId s = uid \<and> isActive s = True \<and> now \<le> nextPaymentDate s) db))"

definition getSubscription :: "subscriptions_table \<Rightarrow> string \<Rightarrow> string \<Rightarrow> subscription option" where
  "getSubscription db i uid =
     (case filter (\<lambda>s. sub_id s = i \<and> userId s = uid) db of
        [] \<Rightarrow> None
      | s # _ \<Rightarrow> Some s)"


text \<open>The \<open>set\<close> clause of an update: only the supplied properties change.\<close>

definition apply_set :: "partial_subscription \<Rightarrow> decimal2 option \<Rightarrow> timestamp \<Rightarrow> subscription \<Rightarrow> subscription" where
  "apply_set p a now s =
     s\<lparr>name := (case p_name p of None \<Rightarrow> name s | Some v \<Rightarrow> v),
       amount := (case a of None \<Rightarrow> amount s | Some v \<Rightarrow> v),
       currency := (case p_currency p of None \<Rightarrow> currency s | Some v \<Rightarrow> v),
       billingPeriod := (case p_billingPeriod p of None \<Rightarrow> billingPeriod s | Some v \<Rightarrow> v),
       nextPaymentDate := (case p_nextPaymentDate p of None \<Rightarrow> nextPaymentDate s | Some v \<Rightarrow> v),
       reminderDays := (case p_reminderDays p of None \<Rightarrow> reminderDays s | Some v \<Rightarrow> v),
       description := (case p_description p of None \<Rightarrow> description s | Some v \<Rightarrow> v),
       emailNotifications :=
         (case p_emailNotifications p of None \<Rightarrow> emailNotifications s | Some v \<Rightarrow> v),
       pushNotifications :=
         (case p_pushNotifications p of None \<Rightarrow> pushNotifications s | Some v \<Rightarrow> v),
       isActive := (case p_isActive p of None \<Rightarrow> isActive s | Some v \<Rightarrow> v),
       updatedAt := Some now\<rparr>"

definition updateSubscription ::
  "subscriptions_table \<Rightarrow> timestamp \<Rightarrow> string \<Rightarrow> string \<Rightarrow> partial_subscription
     \<Rightarrow> store_error + (subscription option \<times> subscriptions_table)" where
  "updateSubscription db now i uid p =
     (case (if (case p_nextPaymentDate p of None \<Rightarrow> True | Some d \<Rightarrow> storable_date d)
            then map_option numeric_in (p_amount p) else Some None) of
        Some None \<Rightarrow> Inl StoreError
      | a \<Rightarrow>
          (let hit = (\<lambda>s. sub_id s = i \<and> userId s = uid);
               db' = map (\<lambda>s. if hit s then apply_set p (Option.bind a (\<lambda>x. x)) now s else s) db
           in Inr (case filter hit db' of [] \<Rightarrow> None | s # _ \<Rightarrow> Some s, db')))"

definition deleteSubscription ::
  "subscriptions_table \<Rightarrow> timestamp \<Rightarrow> string \<Rightarrow> string \<Rightarrow> bool \<times> subscriptions_table" where
  "deleteSubscription db now i uid =
     (let hit = (\<lambda>s. sub_id s = i \<and> userId s = uid);
          rowCount = length (filter hit db)
      in (0 < rowCount,
          map (\<lambda>s. if hit s then s\<lparr>isActive := False, updatedAt := Some now\<rparr> else s) db))"

section \<open>The subscription routes\<close>

datatype 'a response = Json200 'a | Json201 'a | Empty204 | Invalid400 | NotFound404 | Failed500


definition put_subscription ::
  "subscriptions_table \<Rightarrow> timestamp \<Rightarrow> string \<Rightarrow> string \<Rightarrow> body
     \<Rightarrow> subscription response \<times> subscriptions_table" where
  "put_subscription db now uid i b =
     (case partialSubscriptionSchema_parse b of
        Inl _ \<Rightarrow> (Invalid400, db)
      | Inr validatedData \<Rightarrow>
          (case updateSubscription db now i uid validatedData of
             Inl _ \<Rightarrow> (Failed500, db)
           | Inr (None, db') \<Rightarrow> (NotFound404, db')
           | Inr (Some s, db') \<Rightarrow> (Json200 s, db')))"

definition get_subscription :: "subscriptions_table \<Rightarrow> string \<Rightarrow> string \<Rightarrow> subscription response" where
  "get_subscription db uid i =
     (case getSubscription db i uid of None \<Rightarrow> NotFound404 | Some s \<Rightarrow> Json200 s)"

definition delete_subscription ::
  "subscriptions_table \<Rightarrow> timestamp \<Rightarrow> string \<Rightarrow> string
     \<Rightarrow> subscription response \<times> subscriptions_table" where
  "delete_subscription db now uid i =
     (case deleteSubscription db now i uid of
        (deleted, db') \<Rightarrow> (if \<not> deleted then NotFound404 else Empty204, db'))"


section \<open>User settings\<close>

record user_settings =
  us_id :: string
  us_userId :: string
  us_emailNotifications :: bool
  us_pushNotifications :: bool
  weeklySummary :: bool
  darkMode :: bool
  defaultCurrency :: string
  us_createdAt :: "timestamp option"
  us_updatedAt :: "timestamp option"

text \<open>
  \<open>InsertUserSettings\<close>: every column of the table has a default, so every property of the
  schema is optional.
\<close>

record insert_user_settings =
  s_emailNotifications :: "bool option"
  s_pushNotifications :: "bool option"
  s_weeklySummary :: "bool option"
  s_darkMode :: "bool option"
  s_defaultCurrency :: "string option"

definition insertUserSettingsSchema_parse :: "body \<Rightarrow> zod_error + insert_user_settings" where
  "insertUserSettingsSchema_parse b =
     (case (optional as_boolean (b ''emailNotifications''),
            optional as_boolean (b ''pushNotifications''),
            optional as_boolean (b ''weeklySummary''),
            optional as_boolean (b ''darkMode''),
            optional as_string (b ''defaultCurrency'')) of
        (Some e, Some p, Some w, Some d, Some c) \<Rightarrow>
          Inr \<lparr>s_emailNotifications = e, s_pushNotifications = p, s_weeklySummary = w,
               s_darkMode = d, s_defaultCurrency = c\<rparr>
      | _ \<Rightarrow> Inl ZodError)"

text \<open>The table has a unique \<open>userId\<close>: at most one row per user.\<close>

type_synonym user_settings_table = "string \<rightharpoonup> user_settings"

definition getUserSettings :: "user_settings_table \<Rightarrow> string \<Rightarrow> user_settings option" where
  "getUserSettings st uid = st uid"

definition upsertUserSettings ::
  "user_settings_table \<Rightarrow> string \<Rightarrow> timestamp \<Rightarrow> string \<Rightarrow> insert_user_settings
     \<Rightarrow> user_settings \<times> user_settings_table" where
  "upsertUserSettings st gen_id now uid settings =
     (let userSetting =
        (case st uid of
           None \<Rightarrow>
             \<lparr>us_id = gen_id, us_userId = uid,
              us_emailNotifications =
                (case s_emailNotifications settings of None \<Rightarrow> True | Some v \<Rightarrow> v),
              us_pushNotifications =
                (case s_pushNotifications settings of None \<Rightarrow> True | Some v \<Rightarrow> v),
              weeklySummary = (case s_weeklySummary settings of None \<Rightarrow> False | Some v \<Rightarrow> v),
              darkMode = (case s_darkMode settings of None \<Rightarrow> False | Some v \<Rightarrow> v),
              defaultCurrency =
                (case s_defaultCurrency settings of None \<Rightarrow> ''USD'' | Some v \<Rightarrow> v),
              us_createdAt = Some now, us_updatedAt = Some now\<rparr>
         | Some r \<Rightarrow>
             r\<lparr>us_emailNotifications :=
                 (case s_emailNotifications settings of None \<Rightarrow> us_emailNotifications r
                  | Some v \<Rightarrow> v),
               us_pushNotifications :=
                 (case s_pushNotifications settings of None \<Rightarrow> us_pushNotifications r
                  | Some v \<Rightarrow> v),
               weeklySummary :=
                 (case s_weeklySummary settings of None \<Rightarrow> weeklySummary r | Some v \<Rightarrow> v),
               darkMode := (case s_darkMode settings of None \<Rightarrow> darkMode r | Some v \<Rightarrow> v),
               defaultCurrency :=
                 (case s_defaultCurrency settings of None \<Rightarrow> defaultCurrency r | Some v \<Rightarrow> v),
               us_updatedAt := Some now\<rparr>)
      in (userSetting, st(uid \<mapsto> userSetting)))"

text \<open>The object literal that \<open>GET /api/settings\<close> answers with when there is no row.\<close>

record settings_object =
  o_emailNotifications :: bool
  o_pushNotifications :: bool
  o_weeklySummary :: bool
  o_darkMode :: bool
  o_defaultCurrency :: string

datatype settings_json = SettingsRow user_settings | SettingsObject settings_object

definition get_settings :: "user_settings_table \<Rightarrow> string \<Rightarrow> settings_json response" where
  "get_settings st uid =
     Json200 (case getUserSettings st uid of
                Some settings \<Rightarrow> SettingsRow settings
              | None \<Rightarrow>
                  SettingsObject \<lparr>o_emailNotifications = True, o_pushNotifications = True,
                    o_weeklySummary = False, o_darkMode = False, o_defaultCurrency = ''USD''\<rparr>)"

definition put_settings ::
  "user_settings_table \<Rightarrow> string \<Rightarrow> timestamp \<Rightarrow> string \<Rightarrow> body
     \<Rightarrow> settings_json response \<times> user_settings_table" where
  "put_settings st gen_id now uid b =
     (case insertUserSettingsSchema_parse b of
        Inl _ \<Rightarrow> (Invalid400, st)
      | Inr validatedData \<Rightarrow>
          (case upsertUserSettings st gen_id now uid validatedData of
             (settings, st') \<Rightarrow> (Json200 (SettingsRow settings), st')))"

section \<open>Statistics\<close>

text \<open>
  \<open>parseFloat\<close> applied to the text of a \<open>decimal(10, 2)\<close> value: the binary64 number
  nearest to the decimal, and \<open>NaN\<close> for the text \<open>NaN\<close>.
\<close>

fun parseFloat :: "decimal2 \<Rightarrow> number" where
  "parseFloat (Dec a) = fl (of_int a / 100)"
| "parseFloat DecNaN = NaN"

record stats =
  totalSubscriptions :: nat
  monthlySpend :: number
  yearlySpend :: number

text \<open>The object that \<open>GET /api/stats\<close> computes from the subscriptions of the user.\<close>

definition compute_stats :: "subscription list \<Rightarrow> stats" where
  "compute_stats subscriptions =
     \<lparr>totalSubscriptions = length subscriptions,
      monthlySpend =
        foldl (\<lambda>sum sub. num_add sum (parseFloat (amount sub))) (Num 0)
          (filter (\<lambda>sub. billingPeriod sub = ''monthly'') subscriptions),
      yearlySpend =
        foldl (\<lambda>sum sub.
            (let amount = parseFloat (amount sub)
             in if billingPeriod sub = ''monthly'' then num_add sum (num_mul amount (Num 12))
                else if billingPeriod sub = ''yearly'' then num_add sum amount
                else if billingPeriod sub = ''weekly'' then num_add sum (num_mul amount (Num 52))
                else if billingPeriod sub = ''quarterly'' then num_add sum (num_mul amount (Num 4))
                else num_add sum amount))
          (Num 0) subscriptions\<rparr>"

definition get_stats :: "subscriptions_table \<Rightarrow> string \<Rightarrow> stats response" where
  "get_stats db uid = Json200 (compute_stats (getSubscriptions db uid))"

text \<open>
  The client side. A query that has not answered yet is \<open>None\<close>. \<open>getAverageSpend\<close> of the
  analytics page divides by the number of subscriptions, an array length.
\<close>

definition getTotalMonthlySpend :: "subscription list option \<Rightarrow> number" where
  "getTotalMonthlySpend subscriptions =
     (case subscriptions of
        None \<Rightarrow> Num 0
      | Some subs \<Rightarrow>
          foldl (\<lambda>sum sub. num_add sum (parseFloat (amount sub))) (Num 0)
            (filter (\<lambda>sub. billingPeriod sub = ''monthly'') subs))"

definition getAverageSpend :: "stats option \<Rightarrow> number" where
  "getAverageSpend st =
     (case st of
        None \<Rightarrow> Num 0
      | Some stats \<Rightarrow>
          if totalSubscriptions stats = 0 then Num 0
          else num_div (monthlySpend stats) (Num (of_nat (totalSubscriptions stats))))"

record groups =
  active :: "subscription list"
  upcoming :: "subscription list"

definition groupSubscriptionsByStatus :: "subscription list option \<Rightarrow> timestamp \<Rightarrow> groups" where
  "groupSubscriptionsByStatus subscriptions now =
     (case subscriptions of
        None \<Rightarrow> \<lparr>active = [], upcoming = []\<rparr>
      | Some subs \<Rightarrow>
          (let upcoming = filter (\<lambda>sub. let d = diffDays (nextPaymentDate sub) now
                                          in d \<le> 7 \<and> d \<ge> 0) subs;
               active = filter (\<lambda>sub. let d = diffDays (nextPaymentDate sub) now
                                        in d > 7 \<or> d < 0) subs
           in \<lparr>active = active, upcoming = upcoming\<rparr>))"

section \<open>The aggregates as the specification words them\<close>

text \<open>
  The multiplier table of the annual figure. A billing period outside the table counts
  once, which is what the default branch of the route does.
\<close>

definition multiplier_table :: "(string \<times> int) list" where
  "multiplier_table =
     [(''monthly'', 12), (''yearly'', 1), (''weekly'', 52), (''quarterly'', 4), (''custom'', 1)]"

definition period_multiplier :: "string \<Rightarrow> int" where
  "period_multiplier p = (case map_of multiplier_table p of Some k \<Rightarrow> k | None \<Rightarrow> 1)"

definition annual_amount :: "subscription \<Rightarrow> number" where
  "annual_amount s = num_mul (parseFloat (amount s)) (Num (of_int (period_multiplier (billingPeriod s))))"

text \<open>
  The exact fixed-point sums, as rationals. (They are sums of hundredths; an amount that
  is \<open>NaN\<close> has none, and the statements about these sums are about lists without one.)
\<close>

definition exact_monthlySpend :: "subscription list \<Rightarrow> rat" where
  "exact_monthlySpend subs =
     of_int (sum_list (map (\<lambda>s. cents (amount s))
       (filter (\<lambda>s. billingPeriod s = ''monthly'') subs))) / 100"

definition exact_yearlySpend :: "subscription list \<Rightarrow> rat" where
  "exact_yearlySpend subs =
     of_int (sum_list (map (\<lambda>s. cents (amount s) * period_multiplier (billingPeriod s)) subs))
       / 100"

section \<open>Example data\<close>

definition netflix :: subscription where
  "netflix =
     \<lparr>sub_id = ''s1'', userId = ''u1'', name = ''Netflix'', amount = Dec 1599, currency = ''USD'',
      billingPeriod = ''monthly'', nextPaymentDate = 432000000, reminderDays = 3,
      description = None, emailNotifications = True, pushNotifications = True,
      isActive = True, createdAt = Some 0, updatedAt = Some 0\<rparr>"




definition dark_mode_on :: insert_user_settings where
  "dark_mode_on =
     \<lparr>s_emailNotifications = None, s_pushNotifications = None, s_weeklySummary = None,
      s_darkMode = Some True, s_defaultCurrency = None\<rparr>"

definition ten_monthly :: subscription where
  "ten_monthly = netflix\<lparr>amount := Dec 1000\<rparr>"

definition five_weekly :: subscription where
  "five_weekly = netflix\<lparr>sub_id := ''s3'', name := ''Gym'', amount := Dec 500, billingPeriod := ''weekly''\<rparr>"

definition dime :: subscription where
  "dime = netflix\<lparr>sub_id := ''s4'', amount := Dec 10\<rparr>"

definition two_dimes :: subscription where
  "two_dimes = netflix\<lparr>sub_id := ''s5'', amount := Dec 20\<rparr>"

definition quarterly_2_50 :: subscription where
  "quarterly_2_50 =
     netflix\<lparr>sub_id := ''s6'', name := ''Paper'', amount := Dec 250, billingPeriod := ''quarterly''\<rparr>"

section \<open>Properties of the due-date classifier\<close>

lemma getDueText_overdue:
  "diffDays p now < 0 \<Longrightarrow> getDueText p now = \<lparr>due_text = ''Overdue'', urgent = True\<rparr>"
  by (simp add: getDueText_def)

lemma getDueText_today:
  "diffDays p now = 0 \<Longrightarrow> getDueText p now = \<lparr>due_text = ''Due today'', urgent = True\<rparr>"
  by (simp add: getDueText_def)

lemma getDueText_tomorrow:
  "diffDays p now = 1 \<Longrightarrow> getDueText p now = \<lparr>due_text = ''Due tomorrow'', urgent = True\<rparr>"
  by (simp add: getDueText_def)

lemma getDueText_days:
  "1 < diffDays p now \<Longrightarrow> diffDays p now \<le> 7 \<Longrightarrow>
   getDueText p now =
     \<lparr>due_text = ''Due in '' @ show_int (diffDays p now) @ '' days'', urgent = False\<rparr>"
  by (simp add: getDueText_def Let_def)

lemma getDueText_weeks:
  "7 < diffDays p now \<Longrightarrow>
   getDueText p now =
     \<lparr>due_text = ''Due in '' @ show_int (ceil_div (diffDays p now) 7) @ '' week''
        @ (if 14 < diffDays p now then ''s'' else []),
      urgent = False\<rparr>"
  by (simp add: getDueText_def Let_def)

lemma diffDays_whole_days: "diffDays (now + k * MS_PER_DAY) now = k"
  by (simp add: diffDays_def ceil_div_def MS_PER_DAY_def)

text \<open>
  Claim C5. The five branches of the classifier are as the lemmas above state them: the
  plural \<open>s\<close> is appended only when \<open>diffDays > 14\<close>. From 8 to 14 days the week count is
  already 2, so a payment date ten days after \<open>now\<close> is labelled \<open>Due in 2 week\<close>, not
  \<open>Due in 2 weeks\<close>; the label is not urgent.
\<close>

theorem getDueText_ten_days:
  "getDueText (now + 10 * MS_PER_DAY) now = \<lparr>due_text = ''Due in 2 week'', urgent = False\<rparr>"
  by (simp add: getDueText_def diffDays_def ceil_div_def MS_PER_DAY_def show_int_def
      digit_char_def)

section \<open>Properties of the grouping of the list view\<close>

text \<open>
  Claim C8. For every list of subscriptions and every \<open>now\<close>, the grouping puts a
  subscription in \<open>upcoming\<close> exactly when \<open>0 \<le> diffDays \<le> 7\<close> and in \<open>active\<close> otherwise: the
  two groups share no subscription, and together they hold every subscription of the list,
  as often as the list does.
\<close>

theorem groups_partition:
  "set (upcoming (groupSubscriptionsByStatus (Some subs) now))
     \<inter> set (active (groupSubscriptionsByStatus (Some subs) now)) = {}
   \<and> mset (upcoming (groupSubscriptionsByStatus (Some subs) now))
       + mset (active (groupSubscriptionsByStatus (Some subs) now)) = mset subs
   \<and> upcoming (groupSubscriptionsByStatus (Some subs) now)
       = filter (\<lambda>s. 0 \<le> diffDays (nextPaymentDate s) now
                     \<and> diffDays (nextPaymentDate s) now \<le> 7) subs
   \<and> active (groupSubscriptionsByStatus (Some subs) now)
       = filter (\<lambda>s. \<not> (0 \<le> diffDays (nextPaymentDate s) now
                        \<and> diffDays (nextPaymentDate s) now \<le> 7)) subs"
proof -
  let ?P = "\<lambda>s. 0 \<le> diffDays (nextPaymentDate s) now \<and> diffDays (nextPaymentDate s) now \<le> 7"
  have u: "upcoming (groupSubscriptionsByStatus (Some subs) now) = filter ?P subs"
    by (simp add: groupSubscriptionsByStatus_def Let_def conj_commute)
  have "active (groupSubscriptionsByStatus (Some subs) now)
          = filter (\<lambda>s. 7 < diffDays (nextPaymentDate s) now
                        \<or> diffDays (nextPaymentDate s) now < 0) subs"
    by (simp add: groupSubscriptionsByStatus_def Let_def)
  also have "\<dots> = filter (\<lambda>s. \<not> ?P s) subs"
    by (rule filter_cong) auto
  finally have a:
    "active (groupSubscriptionsByStatus (Some subs) now) = filter (\<lambda>s. \<not> ?P s) subs" .
  have d: "set (filter ?P subs) \<inter> set (filter (\<lambda>s. \<not> ?P s) subs) = {}"
    by auto
  have m: "mset (filter ?P subs) + mset (filter (\<lambda>s. \<not> ?P s) subs) = mset subs"
    by (simp only: mset_filter multiset_partition [symmetric])
  show ?thesis
    unfolding u a using d m by blast
qed

theorem groups_partition_witness:
  "set (upcoming (groupSubscriptionsByStatus
          (Some [netflix, netflix\<lparr>nextPaymentDate := 864000000\<rparr>]) 0))
     \<inter> set (active (groupSubscriptionsByStatus
          (Some [netflix, netflix\<lparr>nextPaymentDate := 864000000\<rparr>]) 0)) = {}
   \<and> upcoming (groupSubscriptionsByStatus
          (Some [netflix, netflix\<lparr>nextPaymentDate := 864000000\<rparr>]) 0) = [netflix]
   \<and> active (groupSubscriptionsByStatus
          (Some [netflix, netflix\<lparr>nextPaymentDate := 864000000\<rparr>]) 0)
       = [netflix\<lparr>nextPaymentDate := 864000000\<rparr>]"
  using groups_partition [of "[netflix, netflix\<lparr>nextPaymentDate := 864000000\<rparr>]" 0]
  by (simp add: netflix_def diffDays_def ceil_div_def MS_PER_DAY_def)

section \<open>Properties of the soft delete\<close>

lemma deleteSubscription_fst:
  "fst (deleteSubscription db now i uid) = (\<exists>s \<in> set db. sub_id s = i \<and> userId s = uid)"
  by (simp add: deleteSubscription_def Let_def filter_empty_conv)

lemma deleteSubscription_snd:
  "snd (deleteSubscription db now i uid)
     = map (\<lambda>s. if sub_id s = i \<and> userId s = uid
                then s\<lparr>isActive := False, updatedAt := Some now\<rparr> else s) db"
  by (simp add: deleteSubscription_def Let_def)

text \<open>The update matches on \<open>id\<close> and \<open>userId\<close> only, so a repeated call matches the same rows.\<close>

lemma deleteSubscription_twice:
  "fst (deleteSubscription (snd (deleteSubscription db t1 i uid)) t2 i uid)
     = fst (deleteSubscription db t1 i uid)"
  unfolding deleteSubscription_fst deleteSubscription_snd
  by (induction db) simp_all

lemma deleteSubscription_not_listed:
  assumes "s \<in> set (getSubscriptions (snd (deleteSubscription db now i uid)) uid)"
  shows "sub_id s \<noteq> i"
proof -
  let ?f = "\<lambda>r. if sub_id r = i \<and> userId r = uid
                 then r\<lparr>isActive := False, updatedAt := Some now\<rparr> else r"
  from assms have "s \<in> set (sort_key nextPaymentDate
      (filter (\<lambda>s. userId s = uid \<and> isActive s = True) (map ?f db)))"
    by (simp only: deleteSubscription_snd getSubscriptions_def)
  then have "s \<in> set (map ?f db) \<and> userId s = uid \<and> isActive s = True"
    by (simp only: set_sort set_filter mem_Collect_eq)
  then have m: "s \<in> ?f ` set db" and u: "userId s = uid" and a: "isActive s"
    by (simp_all only: set_map simp_thms)
  from m obtain r where r: "r \<in> set db" "s = ?f r"
    by (rule imageE)
  show ?thesis
  proof (cases "sub_id r = i \<and> userId r = uid")
    case True
    with r a show ?thesis by simp
  next
    case False
    with r u show ?thesis by auto
  qed
qed

lemma getSubscriptions_active: "s \<in> set (getSubscriptions db uid) \<Longrightarrow> isActive s"
  by (simp add: getSubscriptions_def)

lemma getUpcomingSubscriptions_active:
  "s \<in> set (getUpcomingSubscriptions db now uid limit) \<Longrightarrow> isActive s"
  unfolding getUpcomingSubscriptions_def
  by (drule in_set_takeD) simp

text \<open>
  Claim C1. On a table that holds one active subscription of user \<open>u1\<close>, the first
  \<open>deleteSubscription\<close> returns \<open>true\<close>, leaves the row inactive and out of the list of the
  user; the second call on the same subscription returns \<open>true\<close> again, not \<open>false\<close>: the row
  is still there and the update does not look at \<open>isActive\<close>.
\<close>

theorem deleteSubscription_second_call:
  "fst (deleteSubscription [netflix] 1000 ''s1'' ''u1'') = True
   \<and> map isActive (snd (deleteSubscription [netflix] 1000 ''s1'' ''u1'')) = [False]
   \<and> getSubscriptions (snd (deleteSubscription [netflix] 1000 ''s1'' ''u1'')) ''u1'' = []
   \<and> fst (deleteSubscription (snd (deleteSubscription [netflix] 1000 ''s1'' ''u1''))
        2000 ''s1'' ''u1'') = True"
  by (simp add: deleteSubscription_def getSubscriptions_def netflix_def)

text \<open>
  Claim C2. The two list queries never return an inactive subscription (lemmas
  \<open>getSubscriptions_active\<close> and \<open>getUpcomingSubscriptions_active\<close>), but the lookup by id
  does: on a table that holds one inactive subscription, \<open>GET /api/subscriptions/:id\<close>
  answers 200 with that subscription instead of 404.
\<close>

theorem getSubscription_inactive:
  "isActive (netflix\<lparr>isActive := False\<rparr>) = False
   \<and> getSubscriptions [netflix\<lparr>isActive := False\<rparr>] ''u1'' = []
   \<and> getUpcomingSubscriptions [netflix\<lparr>isActive := False\<rparr>] 0 ''u1'' 10 = []
   \<and> get_subscription [netflix\<lparr>isActive := False\<rparr>] ''u1'' ''s1''
       = Json200 (netflix\<lparr>isActive := False\<rparr>)"
  by (simp add: get_subscription_def getSubscription_def getSubscriptions_def
      getUpcomingSubscriptions_def netflix_def)

section \<open>Properties of create and update\<close>

lemma numeric_in_examples:
  "numeric_in ''15.99'' = Some (Dec 1599)"
  "numeric_in ''-5.00'' = Some (Dec (- 500))"
  "numeric_in ''abc'' = None"
  by (simp_all add: numeric_in_def trim_def is_space_def lower_def split_sign_def is_digit_def
      digit_of_def exponent_of_def scale_round_def)




text \<open>
  The insert schema omits \<open>id\<close>, \<open>userId\<close>, \<open>createdAt\<close> and \<open>updatedAt\<close> but keeps \<open>isActive\<close>,
  which a client can therefore set: the update route, whose schema is the insert schema
  with every property optional, takes \<open>isActive: false\<close> from a JSON body and stores it.
\<close>

lemma isActive_update_accepted:
  "put_subscription [netflix] 500 ''u1'' ''s1'' [''isActive'' \<mapsto> JBool False]
     = (Json200 (netflix\<lparr>isActive := False, updatedAt := Some 500\<rparr>),
        [netflix\<lparr>isActive := False, updatedAt := Some 500\<rparr>])"
  by (simp add: put_subscription_def partialSubscriptionSchema_parse_def updateSubscription_def
      apply_set_def optional_def nullable_def Let_def netflix_def)





text \<open>An amount that is a string but not a number passes validation and fails in the store.\<close>

lemma malformed_amount_fails:
  "put_subscription [netflix] 500 ''u1'' ''s1'' [''amount'' \<mapsto> JString ''abc'']
     = (Failed500, [netflix])"
  by (simp add: put_subscription_def partialSubscriptionSchema_parse_def updateSubscription_def
      optional_def nullable_def numeric_in_examples)

text \<open>The update schema is partial: the empty payload is valid and only refreshes \<open>updatedAt\<close>.\<close>

lemma empty_update_accepted:
  "put_subscription [netflix] 500 ''u1'' ''s1'' Map.empty
     = (Json200 (netflix\<lparr>updatedAt := Some 500\<rparr>), [netflix\<lparr>updatedAt := Some 500\<rparr>])"
  by (simp add: put_subscription_def partialSubscriptionSchema_parse_def updateSubscription_def
      apply_set_def optional_def nullable_def Let_def netflix_def)



section \<open>Properties of the user settings\<close>

text \<open>
  Claim C10. A user without a settings row is answered with the default object
  \<open>{emailNotifications: true, pushNotifications: true, weeklySummary: false, darkMode: false,
  defaultCurrency: "USD"}\<close>. After an upsert, for any user and any payload of the settings
  schema, the settings route answers with the row the upsert returned, and every property
  that the payload supplied has the supplied value in it.
\<close>

theorem settings_default_and_upsert:
  "(getUserSettings st uid = None \<longrightarrow>
      get_settings st uid =
        Json200 (SettingsObject \<lparr>o_emailNotifications = True, o_pushNotifications = True,
          o_weeklySummary = False, o_darkMode = False, o_defaultCurrency = ''USD''\<rparr>))
   \<and> get_settings (snd (upsertUserSettings st gen_id now uid v)) uid
       = Json200 (SettingsRow (fst (upsertUserSettings st gen_id now uid v)))
   \<and> (\<forall>x. s_emailNotifications v = Some x \<longrightarrow>
         us_emailNotifications (fst (upsertUserSettings st gen_id now uid v)) = x)
   \<and> (\<forall>x. s_pushNotifications v = Some x \<longrightarrow>
         us_pushNotifications (fst (upsertUserSettings st gen_id now uid v)) = x)
   \<and> (\<forall>x. s_weeklySummary v = Some x \<longrightarrow>
         weeklySummary (fst (upsertUserSettings st gen_id now uid v)) = x)
   \<and> (\<forall>x. s_darkMode v = Some x \<longrightarrow>
         darkMode (fst (upsertUserSettings st gen_id now uid v)) = x)
   \<and> (\<forall>x. s_defaultCurrency v = Some x \<longrightarrow>
         defaultCurrency (fst (upsertUserSettings st gen_id now uid v)) = x)"
  by (cases "st uid")
     (simp_all add: get_settings_def getUserSettings_def upsertUserSettings_def Let_def)

theorem settings_default_and_upsert_witness:
  "getUserSettings Map.empty ''u1'' = None
   \<and> get_settings Map.empty ''u1'' =
        Json200 (SettingsObject \<lparr>o_emailNotifications = True, o_pushNotifications = True,
          o_weeklySummary = False, o_darkMode = False, o_defaultCurrency = ''USD''\<rparr>)
   \<and> s_darkMode dark_mode_on = Some True
   \<and> darkMode (fst (upsertUserSettings Map.empty ''g1'' 500 ''u1'' dark_mode_on)) = True
   \<and> get_settings (snd (upsertUserSettings Map.empty ''g1'' 500 ''u1'' dark_mode_on)) ''u1''
       = Json200 (SettingsRow
           \<lparr>us_id = ''g1'', us_userId = ''u1'', us_emailNotifications = True,
            us_pushNotifications = True, weeklySummary = False, darkMode = True,
            defaultCurrency = ''USD'', us_createdAt = Some 500, us_updatedAt = Some 500\<rparr>)"
  using settings_default_and_upsert [of Map.empty "''u1''" "''g1''" 500 dark_mode_on]
  by (simp add: getUserSettings_def get_settings_def upsertUserSettings_def dark_mode_on_def
      Let_def)

section \<open>Properties of the number model\<close>

text \<open>Powers of two with integer exponents.\<close>

lemma powi_2_pos: "0 < (2::rat) powi k"
  by simp

lemma powi_2_mono: "j \<le> k \<Longrightarrow> (2::rat) powi j \<le> 2 powi k"
  by (rule power_int_increasing) simp_all

lemma powi_2_strict_mono: "j < k \<Longrightarrow> (2::rat) powi j < 2 powi k"
  by (rule power_int_strict_increasing) simp_all

lemma powi_2_add: "(2::rat) powi (j + k) = 2 powi j * 2 powi k"
  by (rule power_int_add) simp

lemma powi_2_diff: "(2::rat) powi (j - k) = 2 powi j / 2 powi k"
  by (rule power_int_diff) simp

lemma bitlen_powi:
  assumes "0 < p"
  shows "(2::rat) powi (bitlen p - 1) \<le> of_int p" and "of_int p < (2::rat) powi (bitlen p)"
proof -
  from bitlen_bounds [OF assms]
  have a: "2 ^ nat (bitlen p - 1) \<le> p" and b: "p < 2 ^ nat (bitlen p)" by simp_all
  have pos: "1 \<le> bitlen p"
    using assms bitlen_eq_zero_iff [of p] bitlen_nonneg [of p] by linarith
  from a have "(of_int (2 ^ nat (bitlen p - 1)) :: rat) \<le> of_int p"
    by (simp only: of_int_le_iff)
  then show "(2::rat) powi (bitlen p - 1) \<le> of_int p"
    using pos by (simp add: power_int_def)
  from b have "(of_int p :: rat) < of_int (2 ^ nat (bitlen p))"
    by (simp only: of_int_less_iff)
  then show "of_int p < (2::rat) powi (bitlen p)"
    using pos by (simp add: power_int_def)
qed

lemma ilog2_bounds:
  assumes "0 < x"
  shows "2 powi (ilog2 x) \<le> x \<and> x < 2 powi (ilog2 x + 1)"
proof -
  obtain p q where pq: "quotient_of x = (p, q)" by (cases "quotient_of x")
  then have q: "0 < q" and x: "x = of_int p / of_int q"
    by (simp_all add: quotient_of_denom_pos quotient_of_div)
  from assms x q have p: "0 < p"
    by (simp add: zero_less_divide_iff)
  define k where "k = bitlen p - bitlen q"
  have qr: "0 < (of_int q :: rat)" using q by simp
  have up: "x < 2 powi (k + 1)"
  proof -
    have "of_int p < (2::rat) powi (bitlen p)" by (rule bitlen_powi [OF p])
    also have "\<dots> = 2 powi (k + 1) * 2 powi (bitlen q - 1)"
      by (simp add: k_def flip: powi_2_add)
    also have "\<dots> \<le> 2 powi (k + 1) * of_int q"
      by (rule mult_left_mono [OF bitlen_powi(1) [OF q]]) simp
    finally show ?thesis
      using qr by (simp add: x pos_divide_less_eq)
  qed
  have lo: "2 powi (k - 1) \<le> x"
  proof -
    have "2 powi (k - 1) * of_int q \<le> 2 powi (k - 1) * (2::rat) powi (bitlen q)"
      by (rule mult_left_mono) (use bitlen_powi(2) [OF q] in simp_all)
    also have "\<dots> = 2 powi (bitlen p - 1)"
      by (simp add: k_def flip: powi_2_add)
    also have "\<dots> \<le> of_int p" by (rule bitlen_powi [OF p])
    finally show ?thesis
      using qr by (simp add: x pos_le_divide_eq)
  qed
  have il: "ilog2 x = (if 2 powi k \<le> x then k else k - 1)"
    by (simp add: ilog2_def pq k_def Let_def)
  show ?thesis
  proof (cases "2 powi k \<le> x")
    case True
    with il up show ?thesis by simp
  next
    case False
    with il lo show ?thesis by simp
  qed
qed

lemma ilog2_le:
  assumes "0 < x" and "x < 2 powi (k + 1)"
  shows "ilog2 x \<le> k"
proof (rule ccontr)
  assume "\<not> ilog2 x \<le> k"
  then have "k + 1 \<le> ilog2 x" by simp
  then have "(2::rat) powi (k + 1) \<le> 2 powi (ilog2 x)" by (rule powi_2_mono)
  also have "\<dots> \<le> x" using ilog2_bounds [OF assms(1)] by simp
  finally show False using assms(2) by simp
qed

lemma ilog2_ge:
  assumes "0 < x" and "2 powi k \<le> x"
  shows "k \<le> ilog2 x"
proof (rule ccontr)
  assume "\<not> k \<le> ilog2 x"
  then have "ilog2 x + 1 \<le> k" by simp
  then have "(2::rat) powi (ilog2 x + 1) \<le> 2 powi k" by (rule powi_2_mono)
  also note assms(2)
  finally show False using ilog2_bounds [OF assms(1)] by simp
qed

lemma ilog2_unique:
  assumes "0 < x" and "2 powi k \<le> x" and "x < 2 powi (k + 1)"
  shows "ilog2 x = k"
  using ilog2_le [OF assms(1,3)] ilog2_ge [OF assms(1,2)] by simp

lemma round_half_even_of_int: "round_half_even (of_int n) = n"
  by (simp add: round_half_even_def)

lemma round_half_even_le:
  assumes "x \<le> of_int n"
  shows "round_half_even x \<le> n"
proof -
  have f: "\<lfloor>x\<rfloor> \<le> n" using assms by (simp add: floor_le_iff) 
  show ?thesis
  proof (cases "x - of_int \<lfloor>x\<rfloor> < 1 / 2")
    case True
    with f show ?thesis by (simp add: round_half_even_def Let_def)
  next
    case False
    then have "of_int \<lfloor>x\<rfloor> < x" by simp
    with assms have "(of_int \<lfloor>x\<rfloor> :: rat) < of_int n" by simp
    then have "\<lfloor>x\<rfloor> < n" by (simp only: of_int_less_iff)
    then show ?thesis by (simp add: round_half_even_def Let_def)
  qed
qed

lemma round_half_even_nonneg: "0 \<le> x \<Longrightarrow> 0 \<le> round_half_even x"
  by (simp add: round_half_even_def Let_def)


lemma round_pos_representable:
  assumes m: "0 < m" "m \<le> 2 ^ 53" and k: "- 1074 \<le> k"
  shows "round_pos (of_int m * 2 powi k) = of_int m * 2 powi k"
proof -
  define x :: rat where "x = of_int m * 2 powi k"
  define e where "e = max (ilog2 x - 52) (- 1074)"
  have xpos: "0 < x" using m by (simp add: x_def)
  have "\<exists>n. x / 2 powi e = of_int n"
  proof (cases "m = 2 ^ 53")
    case True
    then have x53: "x = 2 powi (k + 53)"
      by (simp add: x_def powi_2_add)
    then have "ilog2 x = k + 53"
      using xpos by (intro ilog2_unique) (simp_all add: powi_2_strict_mono)
    then have "e = k + 1" using k by (simp add: e_def)
    then have "x / 2 powi e = 2 powi 52"
      by (simp add: x53 flip: powi_2_diff)
    also have "\<dots> = of_int (2 ^ 52)" by simp
    finally show ?thesis by blast
  next
    case False
    with m have "m < 2 ^ 53" by simp
    then have "(of_int m :: rat) < of_int (2 ^ 53)" by (simp only: of_int_less_iff)
    then have "(of_int m :: rat) < 2 powi 53" by simp
    then have "x < 2 powi 53 * 2 powi k"
      unfolding x_def by (rule mult_strict_right_mono) simp
    then have "x < 2 powi (k + 52 + 1)" by (simp add: powi_2_add mult.commute)
    from ilog2_le [OF xpos this] k have "e \<le> k" by (simp add: e_def)
    then obtain d where d: "k = e + int d"
      by (metis zle_iff_zadd)
    have "x / 2 powi e = of_int m * 2 ^ d"
      by (simp add: x_def d powi_2_add)
    also have "\<dots> = of_int (m * 2 ^ d)" by simp
    finally show ?thesis by blast
  qed
  then obtain n where n: "x / 2 powi e = of_int n" ..
  then have "of_int n * 2 powi e = x" by (simp add: field_simps)
  with n have "round_pos x = x"
    by (simp add: round_pos_def Let_def round_half_even_of_int flip: e_def)
  then show ?thesis by (simp add: x_def)
qed

lemma round_pos_shape:
  assumes "0 < x"
  shows "\<exists>m e. round_pos x = of_int m * 2 powi e \<and> 0 \<le> m \<and> m \<le> 2 ^ 53 \<and> - 1074 \<le> e"
proof -
  define e where "e = max (ilog2 x - 52) (- 1074)"
  define m where "m = round_half_even (x / 2 powi e)"
  have r: "round_pos x = of_int m * 2 powi e"
    by (simp add: round_pos_def Let_def e_def m_def)
  have "ilog2 x + 1 \<le> e + 53" by (simp add: e_def)
  then have "(2::rat) powi (ilog2 x + 1) \<le> 2 powi (e + 53)" by (rule powi_2_mono)
  with ilog2_bounds [OF assms] have "x < 2 powi (e + 53)" by simp
  then have "x / 2 powi e < 2 powi 53"
    by (simp add: powi_2_add pos_divide_less_eq mult.commute)
  then have "x / 2 powi e \<le> of_int (2 ^ 53)" by simp
  then have "m \<le> 2 ^ 53" unfolding m_def by (rule round_half_even_le)
  moreover have "0 \<le> m" unfolding m_def using assms by (intro round_half_even_nonneg) simp
  moreover have "- 1074 \<le> e" by (simp add: e_def)
  ultimately show ?thesis using r by blast
qed

lemma round_pos_nonneg: "0 < x \<Longrightarrow> 0 \<le> round_pos x"
  using round_pos_shape [of x] by auto

lemma round_pos_idem:
  assumes "0 < x" and "0 < round_pos x"
  shows "round_pos (round_pos x) = round_pos x"
proof -
  from round_pos_shape [OF assms(1)] obtain m e
    where r: "round_pos x = of_int m * 2 powi e" and m: "0 \<le> m" "m \<le> 2 ^ 53" and e: "- 1074 \<le> e"
    by blast
  from assms(2) r m have "0 < m" by (cases "m = 0") simp_all
  from round_pos_representable [OF this m(2) e] r show ?thesis by simp
qed

lemma fl_idem:
  assumes "fl x = Num r"
  shows "fl r = Num r"
proof -
  consider "x = 0" | "0 < x" | "x < 0" by linarith
  then show ?thesis
  proof cases
    case 1
    with assms show ?thesis by (simp add: fl_def)
  next
    case 2
    with assms have r: "r = round_pos x" and b: "\<not> 2 ^ 1024 \<le> round_pos x"
      by (auto simp: fl_def Let_def split: if_splits)
    show ?thesis
    proof (cases "r = 0")
      case True
      then show ?thesis by (simp add: fl_def)
    next
      case False
      with round_pos_nonneg [OF 2] r have "0 < r" by simp
      with round_pos_idem [OF 2] r b show ?thesis by (simp add: fl_def Let_def)
    qed
  next
    case 3
    then have n: "0 < - x" by simp
    from 3 assms have r: "r = - round_pos (- x)" and b: "\<not> 2 ^ 1024 \<le> round_pos (- x)"
      by (auto simp: fl_def Let_def split: if_splits)
    show ?thesis
    proof (cases "r = 0")
      case True
      then show ?thesis by (simp add: fl_def)
    next
      case False
      with round_pos_nonneg [OF n] r have "r < 0" and "0 < round_pos (- x)" by simp_all
      with round_pos_idem [OF n] r b show ?thesis by (simp add: fl_def Let_def)
    qed
  qed
qed

lemma round_pos_of_int:
  assumes "0 < n" and "n \<le> 2 ^ 53"
  shows "round_pos (of_int n) = of_int n"
  using round_pos_representable [OF assms, of 0] by simp

lemma fl_of_int:
  assumes "\<bar>n\<bar> \<le> 2 ^ 53"
  shows "fl (of_int n) = Num (of_int n)"
proof -
  have big: "(of_int k :: rat) < 2 ^ 1024" if "k \<le> 2 ^ 53" for k :: int
  proof -
    from that have "(of_int k :: rat) \<le> of_int (2 ^ 53)" by (simp only: of_int_le_iff)
    also have "\<dots> < 2 ^ 1024" by simp
    finally show ?thesis .
  qed
  consider "n = 0" | "0 < n" | "n < 0" by linarith
  then show ?thesis
  proof cases
    case 1
    then show ?thesis by (simp add: fl_def)
  next
    case 2
    with assms have "n \<le> 2 ^ 53" by simp
    with 2 round_pos_of_int [of n] big [of n] show ?thesis
      by (simp add: fl_def Let_def)
  next
    case 3
    with assms have "- n \<le> 2 ^ 53" and "0 < - n" by simp_all
    with 3 round_pos_of_int [of "- n"] big [of "- n"] show ?thesis
      by (simp add: fl_def Let_def)
  qed
qed

lemma num_mul_one: "num_mul (fl x) (Num 1) = fl x"
  by (cases "fl x") (simp_all add: fl_idem)

lemma num_add_zero: "num_add (Num 0) (fl x) = fl x"
  by (cases "fl x") (simp_all add: fl_idem)

text \<open>
  Evaluating \<open>fl\<close> at a fraction \<open>p / q\<close> whose binary exponent is known, with integer
  arithmetic only.
\<close>

lemma fl_eval_small:
  assumes "0 < x" and "n \<le> 1074" and "2 ^ 52 \<le> x * 2 ^ n" and "x * 2 ^ n < 2 ^ 53"
  shows "fl x = Num (of_int (round_half_even (x * 2 ^ n)) / 2 ^ n)"
proof -
  have p: "(2::rat) powi (- int n) = 1 / 2 ^ n"
    by (simp add: power_int_minus_divide)
  have "2 powi (52 - int n) \<le> x"
    using assms(3) by (simp add: powi_2_diff pos_divide_le_eq)
  moreover have "x < 2 powi (52 - int n + 1)"
  proof -
    have "52 - int n + 1 = 53 - int n" by simp
    then show ?thesis using assms(4) by (simp add: powi_2_diff pos_less_divide_eq)
  qed
  ultimately have "ilog2 x = 52 - int n" by (rule ilog2_unique [OF assms(1)])
  then have e: "max (ilog2 x - 52) (- 1074) = - int n" using assms(2) by simp
  define m where "m = round_half_even (x * 2 ^ n)"
  have r: "round_pos x = of_int m / 2 ^ n"
    by (simp add: round_pos_def Let_def e p m_def)
  have "x * 2 ^ n \<le> of_int (2 ^ 53)" using assms(4) by simp
  then have "m \<le> 2 ^ 53" unfolding m_def by (rule round_half_even_le)
  then have "(of_int m :: rat) \<le> of_int (2 ^ 53)" by (simp only: of_int_le_iff)
  moreover have "(1::rat) \<le> 2 ^ n" by simp
  ultimately have "(of_int m :: rat) / 2 ^ n \<le> of_int (2 ^ 53) / 1"
    by (intro frac_le) simp_all
  also have "\<dots> < 2 ^ 1024" by simp
  finally have "\<not> 2 ^ 1024 \<le> round_pos x" using r by simp
  with assms(1) r show ?thesis by (simp add: fl_def Let_def m_def)
qed

lemma round_half_even_frac:
  assumes "0 < q"
  shows "round_half_even (of_int p / of_int q) =
    (if 2 * (p mod q) < q then p div q
     else if q < 2 * (p mod q) then p div q + 1
     else if even (p div q) then p div q else p div q + 1)"
proof -
  have f: "\<lfloor>(of_int p :: rat) / of_int q\<rfloor> = p div q"
    by (simp add: floor_divide_of_int_eq)
  have "(of_int p :: rat) = of_int (p div q * q + p mod q)"
    by (simp only: div_mult_mod_eq)
  also have "\<dots> = of_int (p div q) * of_int q + of_int (p mod q)"
    by (simp only: of_int_add of_int_mult)
  finally have d: "(of_int p :: rat) / of_int q - of_int (p div q) = of_int (p mod q) / of_int q"
    using assms by (simp add: field_simps)
  have lt: "(of_int (p mod q) / of_int q < (1::rat) / 2) = (2 * (p mod q) < q)"
  proof -
    have "(of_int (p mod q) / of_int q < (1::rat) / 2) = ((of_int (2 * (p mod q)) :: rat) < of_int q)"
      using assms by (simp add: field_simps)
    then show ?thesis by (simp only: of_int_less_iff)
  qed
  have gt: "((1::rat) / 2 < of_int (p mod q) / of_int q) = (q < 2 * (p mod q))"
  proof -
    have "((1::rat) / 2 < of_int (p mod q) / of_int q) = ((of_int q :: rat) < of_int (2 * (p mod q)))"
      using assms by (simp add: field_simps)
    then show ?thesis by (simp only: of_int_less_iff)
  qed
  show ?thesis
    unfolding round_half_even_def Let_def f d lt gt ..
qed

lemma fl_eval_frac:
  assumes "0 < p" and "0 < q" and "n \<le> 1074"
    and "2 ^ 52 * q \<le> p * 2 ^ n" and "p * 2 ^ n < 2 ^ 53 * q"
  shows "fl (of_int p / of_int q) =
    Num (of_int (if 2 * ((p * 2 ^ n) mod q) < q then (p * 2 ^ n) div q
                 else if q < 2 * ((p * 2 ^ n) mod q) then (p * 2 ^ n) div q + 1
                 else if even ((p * 2 ^ n) div q) then (p * 2 ^ n) div q
                 else (p * 2 ^ n) div q + 1) / 2 ^ n)"
proof -
  have q: "0 < (of_int q :: rat)" using assms(2) by simp
  have x: "(of_int p :: rat) / of_int q * 2 ^ n = of_int (p * 2 ^ n) / of_int q" by simp
  have "(of_int (2 ^ 52 * q) :: rat) \<le> of_int (p * 2 ^ n)"
    using assms(4) by (simp only: of_int_le_iff)
  then have a: "2 ^ 52 \<le> (of_int p :: rat) / of_int q * 2 ^ n"
    unfolding x using q by (simp add: pos_le_divide_eq)
  have "(of_int (p * 2 ^ n) :: rat) < of_int (2 ^ 53 * q)"
    using assms(5) by (simp only: of_int_less_iff)
  then have b: "(of_int p :: rat) / of_int q * 2 ^ n < 2 ^ 53"
    unfolding x using q by (simp add: pos_divide_less_eq)
  have "0 < (of_int p :: rat) / of_int q" using assms(1,2) by simp
  from fl_eval_small [OF this assms(3) a b] show ?thesis
    unfolding x round_half_even_frac [OF assms(2)] .
qed

lemma fl_tenth: "fl (1 / 10) = Num (3602879701896397 / 36028797018963968)"
  using fl_eval_frac [of 1 10 56] by simp

lemma fl_fifth: "fl (1 / 5) = Num (3602879701896397 / 18014398509481984)"
  using fl_eval_frac [of 1 5 55] by simp

lemma fl_three_tenths: "fl (3 / 10) = Num (5404319552844595 / 18014398509481984)"
  using fl_eval_frac [of 3 10 54] by simp

section \<open>Properties of the statistics\<close>

lemma period_multiplier_simps:
  "period_multiplier ''monthly'' = 12" "period_multiplier ''yearly'' = 1"
  "period_multiplier ''weekly'' = 52" "period_multiplier ''quarterly'' = 4"
  "period_multiplier ''custom'' = 1"
  by (simp_all add: period_multiplier_def multiplier_table_def)

lemma period_multiplier_other:
  "p \<noteq> ''monthly'' \<Longrightarrow> p \<noteq> ''yearly'' \<Longrightarrow> p \<noteq> ''weekly'' \<Longrightarrow> p \<noteq> ''quarterly'' \<Longrightarrow>
   period_multiplier p = 1"
  by (simp add: period_multiplier_def multiplier_table_def)

lemma num_mul_one_parseFloat: "num_mul (parseFloat a) (Num 1) = parseFloat a"
  by (cases a) (simp_all add: num_mul_one del: num_mul.simps(1))

lemma yearlySpend_foldl:
  "yearlySpend (compute_stats subs) = foldl (\<lambda>sum s. num_add sum (annual_amount s)) (Num 0) subs"
proof -
  have "(\<lambda>sum sub.
            (let amount = parseFloat (amount sub)
             in if billingPeriod sub = ''monthly'' then num_add sum (num_mul amount (Num 12))
                else if billingPeriod sub = ''yearly'' then num_add sum amount
                else if billingPeriod sub = ''weekly'' then num_add sum (num_mul amount (Num 52))
                else if billingPeriod sub = ''quarterly'' then num_add sum (num_mul amount (Num 4))
                else num_add sum amount))
        = (\<lambda>sum s. num_add sum (annual_amount s))"
  proof (intro ext)
    fix sum :: number and s :: subscription
    consider "billingPeriod s = ''monthly''" | "billingPeriod s = ''yearly''"
      | "billingPeriod s = ''weekly''" | "billingPeriod s = ''quarterly''"
      | "billingPeriod s \<noteq> ''monthly''" "billingPeriod s \<noteq> ''yearly''"
        "billingPeriod s \<noteq> ''weekly''" "billingPeriod s \<noteq> ''quarterly''"
      by blast
    then show "(let amount = parseFloat (amount s)
             in if billingPeriod s = ''monthly'' then num_add sum (num_mul amount (Num 12))
                else if billingPeriod s = ''yearly'' then num_add sum amount
                else if billingPeriod s = ''weekly'' then num_add sum (num_mul amount (Num 52))
                else if billingPeriod s = ''quarterly'' then num_add sum (num_mul amount (Num 4))
                else num_add sum amount) = num_add sum (annual_amount s)"
    proof cases
      case 1
      then show ?thesis by (simp add: annual_amount_def period_multiplier_simps)
    next
      case 2
      then show ?thesis
        by (simp add: annual_amount_def period_multiplier_simps num_mul_one_parseFloat)
    next
      case 3
      then show ?thesis by (simp add: annual_amount_def period_multiplier_simps)
    next
      case 4
      then show ?thesis by (simp add: annual_amount_def period_multiplier_simps)
    next
      case 5
      then show ?thesis
        by (simp add: annual_amount_def period_multiplier_other num_mul_one_parseFloat)
    qed
  qed
  then show ?thesis by (simp add: compute_stats_def)
qed

lemma fl_10: "fl 10 = Num 10" using fl_of_int [of 10] by simp
lemma fl_120: "fl 120 = Num 120" using fl_of_int [of 120] by simp
lemma fl_5: "fl 5 = Num 5" using fl_of_int [of 5] by simp
lemma fl_260: "fl 260 = Num 260" using fl_of_int [of 260] by simp

lemma fl_380: "fl 380 = Num 380" using fl_of_int [of 380] by simp

lemma period_multiplier_ge_1: "1 \<le> period_multiplier p"
  by (simp add: period_multiplier_def multiplier_table_def)

lemma monthlySpend_foldl:
  "monthlySpend (compute_stats subs)
     = foldl (\<lambda>sum s. num_add sum (parseFloat (amount s))) (Num 0)
         (filter (\<lambda>s. billingPeriod s = ''monthly'') subs)"
  by (simp add: compute_stats_def)

lemma num_add_of_int:
  "\<bar>a + b\<bar> \<le> 2 ^ 53 \<Longrightarrow> num_add (Num (of_int a)) (Num (of_int b)) = Num (of_int (a + b))"
  using fl_of_int [of "a + b"] by simp

lemma num_mul_of_int:
  "\<bar>a * b\<bar> \<le> 2 ^ 53 \<Longrightarrow> num_mul (Num (of_int a)) (Num (of_int b)) = Num (of_int (a * b))"
  using fl_of_int [of "a * b"] by simp

lemma parseFloat_whole:
  assumes "100 dvd a" and "\<bar>a div 100\<bar> \<le> 2 ^ 53"
  shows "parseFloat (Dec a) = Num (of_int (a div 100))"
proof -
  from assms(1) obtain k where k: "a = 100 * k" ..
  then have "(of_int a :: rat) / 100 = of_int k" by simp
  with k fl_of_int [of k] assms(2) show ?thesis by simp
qed

lemma foldl_num_add_exact:
  assumes "\<forall>x \<in> set xs. g x = Num (of_int (h x))"
    and "\<bar>acc\<bar> + (\<Sum>x\<leftarrow>xs. \<bar>h x\<bar>) \<le> 2 ^ 53"
  shows "foldl (\<lambda>sum x. num_add sum (g x)) (Num (of_int acc)) xs
           = Num (of_int (acc + (\<Sum>x\<leftarrow>xs. h x)))"
  using assms
proof (induction xs arbitrary: acc)
  case Nil
  then show ?case by simp
next
  case (Cons x xs)
  have nn: "0 \<le> (\<Sum>x\<leftarrow>xs. \<bar>h x\<bar>)" by (rule sum_list_nonneg) auto
  from Cons.prems(2) nn have b: "\<bar>acc + h x\<bar> \<le> 2 ^ 53" by simp
  from Cons.prems(1) have g: "g x = Num (of_int (h x))" by simp
  have "num_add (Num (of_int acc)) (g x) = Num (of_int (acc + h x))"
    by (simp only: g num_add_of_int [OF b])
  then have "foldl (\<lambda>sum x. num_add sum (g x)) (Num (of_int acc)) (x # xs)
          = foldl (\<lambda>sum x. num_add sum (g x)) (Num (of_int (acc + h x))) xs"
    by (simp only: foldl_Cons)
  also have "\<dots> = Num (of_int (acc + h x + (\<Sum>x\<leftarrow>xs. h x)))"
  proof (rule Cons.IH)
    show "\<forall>x \<in> set xs. g x = Num (of_int (h x))" using Cons.prems(1) by simp
    show "\<bar>acc + h x\<bar> + (\<Sum>x\<leftarrow>xs. \<bar>h x\<bar>) \<le> 2 ^ 53" using Cons.prems(2) by simp
  qed
  finally show ?case by (simp add: add.assoc)
qed

lemma abs_le_sum_list:
  assumes "x \<in> set xs"
  shows "\<bar>h x\<bar> \<le> (\<Sum>x\<leftarrow>xs. \<bar>h x :: int\<bar>)"
  using assms
proof (induction xs)
  case Nil
  then show ?case by simp
next
  case (Cons y ys)
  have nn: "0 \<le> (\<Sum>x\<leftarrow>ys. \<bar>h x\<bar>)" by (rule sum_list_nonneg) auto
  from Cons show ?case
  proof (cases "x = y")
    case True
    with nn show ?thesis by simp
  next
    case False
    with Cons have "\<bar>h x\<bar> \<le> (\<Sum>x\<leftarrow>ys. \<bar>h x\<bar>)" by simp
    then show ?thesis by simp
  qed
qed

lemma sum_list_filter_abs_le:
  "(\<Sum>x\<leftarrow>filter P xs. \<bar>h x :: int\<bar>) \<le> (\<Sum>x\<leftarrow>xs. \<bar>h x\<bar>)"
  by (induction xs) (auto intro: add_increasing)

lemma sum_list_abs_mono:
  assumes "\<forall>x \<in> set xs. \<bar>f x\<bar> \<le> \<bar>g x :: int\<bar>"
  shows "(\<Sum>x\<leftarrow>xs. \<bar>f x\<bar>) \<le> (\<Sum>x\<leftarrow>xs. \<bar>g x\<bar>)"
  using assms by (induction xs) (simp_all add: add_mono)

section \<open>The annual figure\<close>

text \<open>Multiples of a quarter are binary fractions: sums and products of them are exact.\<close>

lemma fl_quarters:
  assumes "\<bar>k\<bar> \<le> 2 ^ 53"
  shows "fl (of_int k / 4) = Num (of_int k / 4)"
proof -
  have q: "(of_int j :: rat) / 4 = of_int j * 2 powi (- 2)" for j :: int
    by (simp add: power_int_minus_divide)
  have big: "(of_int j :: rat) / 4 < 2 ^ 1024" if "0 < j" "j \<le> 2 ^ 53" for j :: int
  proof -
    from that have "(of_int j :: rat) \<le> of_int (2 ^ 53)" by (simp only: of_int_le_iff)
    then have "(of_int j :: rat) / 4 \<le> of_int (2 ^ 53)" using that(1) by simp
    also have "\<dots> < 2 ^ 1024" by simp
    finally show ?thesis .
  qed
  have pos: "round_pos (of_int j / 4) = of_int j / 4" if "0 < j" "j \<le> 2 ^ 53" for j :: int
    using round_pos_representable [OF that, of "- 2"] by (simp only: q)
  consider "k = 0" | "0 < k" | "k < 0" by linarith
  then show ?thesis
  proof cases
    case 1
    then show ?thesis by (simp add: fl_def)
  next
    case 2
    with assms have "k \<le> 2 ^ 53" by simp
    with 2 pos [of k] big [of k] show ?thesis by (simp add: fl_def Let_def)
  next
    case 3
    with assms have "0 < - k" "- k \<le> 2 ^ 53" by simp_all
    with 3 pos [of "- k"] big [of "- k"] show ?thesis by (simp add: fl_def Let_def)
  qed
qed

lemma num_add_quarters:
  assumes "\<bar>a + b\<bar> \<le> 2 ^ 53"
  shows "num_add (Num (of_int a / 4)) (Num (of_int b / 4)) = Num (of_int (a + b) / 4)"
proof -
  have "(of_int a :: rat) / 4 + of_int b / 4 = of_int (a + b) / 4" by simp
  with fl_quarters [OF assms] show ?thesis by (simp only: num_add.simps)
qed

lemma num_mul_quarters:
  assumes "\<bar>a * m\<bar> \<le> 2 ^ 53"
  shows "num_mul (Num (of_int a / 4)) (Num (of_int m)) = Num (of_int (a * m) / 4)"
proof -
  have "(of_int a :: rat) / 4 * of_int m = of_int (a * m) / 4" by simp
  with fl_quarters [OF assms] show ?thesis by (simp only: num_mul.simps)
qed

lemma parseFloat_quarters:
  assumes "25 dvd a" and "\<bar>a div 25\<bar> \<le> 2 ^ 53"
  shows "parseFloat (Dec a) = Num (of_int (a div 25) / 4)"
proof -
  from assms(1) obtain k where k: "a = 25 * k" ..
  then have "(of_int a :: rat) / 100 = of_int k / 4" by simp
  with k fl_quarters [of k] assms(2) show ?thesis by simp
qed

lemma foldl_num_add_quarters:
  assumes "\<forall>x \<in> set xs. g x = Num (of_int (h x) / 4)"
    and "\<bar>acc\<bar> + (\<Sum>x\<leftarrow>xs. \<bar>h x\<bar>) \<le> 2 ^ 53"
  shows "foldl (\<lambda>sum x. num_add sum (g x)) (Num (of_int acc / 4)) xs
           = Num (of_int (acc + (\<Sum>x\<leftarrow>xs. h x)) / 4)"
  using assms
proof (induction xs arbitrary: acc)
  case Nil
  then show ?case by simp
next
  case (Cons x xs)
  have nn: "0 \<le> (\<Sum>x\<leftarrow>xs. \<bar>h x\<bar>)" by (rule sum_list_nonneg) auto
  from Cons.prems(2) nn have b: "\<bar>acc + h x\<bar> \<le> 2 ^ 53" by simp
  from Cons.prems(1) have g: "g x = Num (of_int (h x) / 4)" by simp
  have "num_add (Num (of_int acc / 4)) (g x) = Num (of_int (acc + h x) / 4)"
    by (simp only: g num_add_quarters [OF b])
  then have "foldl (\<lambda>sum x. num_add sum (g x)) (Num (of_int acc / 4)) (x # xs)
          = foldl (\<lambda>sum x. num_add sum (g x)) (Num (of_int (acc + h x) / 4)) xs"
    by (simp only: foldl_Cons)
  also have "\<dots> = Num (of_int (acc + h x + (\<Sum>x\<leftarrow>xs. h x)) / 4)"
  proof (rule Cons.IH)
    show "\<forall>x \<in> set xs. g x = Num (of_int (h x) / 4)" using Cons.prems(1) by simp
    show "\<bar>acc + h x\<bar> + (\<Sum>x\<leftarrow>xs. \<bar>h x\<bar>) \<le> 2 ^ 53" using Cons.prems(2) by simp
  qed
  finally show ?case by (simp add: add.assoc)
qed

lemma yearlySpend_quarters:
  assumes quarters: "\<forall>s \<in> set subs. \<exists>k. amount s = Dec (25 * k)"
    and bound: "(\<Sum>s\<leftarrow>subs. \<bar>cents (amount s)\<bar> * period_multiplier (billingPeriod s))
                  \<le> 25 * 2 ^ 53"
  shows "yearlySpend (compute_stats subs) = Num (exact_yearlySpend subs)"
proof -
  define u :: "subscription \<Rightarrow> int" where "u = (\<lambda>s. cents (amount s) div 25)"
  define y :: "subscription \<Rightarrow> int"
    where "y = (\<lambda>s. u s * period_multiplier (billingPeriod s))"
  have am: "amount s = Dec (25 * u s)" if "s \<in> set subs" for s
    using quarters that by (auto simp: u_def)
  have ce: "cents (amount s) = 25 * u s" if "s \<in> set subs" for s
    using am [OF that] by (metis cents.simps(1))
  have "(\<Sum>s\<leftarrow>subs. \<bar>cents (amount s)\<bar> * period_multiplier (billingPeriod s))
          = (\<Sum>s\<leftarrow>subs. 25 * \<bar>y s\<bar>)"
  proof (rule arg_cong [where f = sum_list], rule map_cong [OF refl])
    fix s assume "s \<in> set subs"
    from ce [OF this] period_multiplier_ge_1 [of "billingPeriod s"]
    show "\<bar>cents (amount s)\<bar> * period_multiplier (billingPeriod s) = 25 * \<bar>y s\<bar>"
      by (simp add: y_def abs_mult)
  qed
  also have "\<dots> = 25 * (\<Sum>s\<leftarrow>subs. \<bar>y s\<bar>)"
    by (simp add: sum_list_const_mult)
  finally have ybound: "(\<Sum>s\<leftarrow>subs. \<bar>y s\<bar>) \<le> 2 ^ 53"
    using bound by simp
  have uy: "\<bar>u s\<bar> \<le> \<bar>y s\<bar>" for s
  proof -
    have "\<bar>u s\<bar> * 1 \<le> \<bar>u s\<bar> * period_multiplier (billingPeriod s)"
      by (rule mult_left_mono [OF period_multiplier_ge_1]) simp
    also have "\<dots> = \<bar>y s\<bar>"
      using period_multiplier_ge_1 [of "billingPeriod s"] by (simp add: y_def abs_mult)
    finally show ?thesis by simp
  qed
  have ysmall: "\<bar>y s\<bar> \<le> 2 ^ 53" if "s \<in> set subs" for s
    using abs_le_sum_list [OF that, of y] ybound by simp
  have pf: "parseFloat (amount s) = Num (of_int (u s) / 4)" if "s \<in> set subs" for s
  proof -
    from uy [of s] ysmall [OF that] have "\<bar>25 * u s div 25\<bar> \<le> 2 ^ 53" by simp
    from parseFloat_quarters [OF _ this] show ?thesis
      by (simp add: am [OF that])
  qed
  have aa: "annual_amount s = Num (of_int (y s) / 4)" if "s \<in> set subs" for s
  proof -
    from ysmall [OF that] have "\<bar>u s * period_multiplier (billingPeriod s)\<bar> \<le> 2 ^ 53"
      by (simp only: y_def)
    from num_mul_quarters [OF this] show ?thesis
      by (simp only: annual_amount_def pf [OF that] y_def)
  qed
  have "foldl (\<lambda>sum s. num_add sum (annual_amount s)) (Num (of_int 0 / 4)) subs
          = Num (of_int (0 + (\<Sum>s\<leftarrow>subs. y s)) / 4)"
  proof (rule foldl_num_add_quarters)
    show "\<forall>s \<in> set subs. annual_amount s = Num (of_int (y s) / 4)" by (simp add: aa)
    show "\<bar>0\<bar> + (\<Sum>s\<leftarrow>subs. \<bar>y s\<bar>) \<le> 2 ^ 53" using ybound by simp
  qed
  moreover have "of_int (\<Sum>s\<leftarrow>subs. y s) / 4 = exact_yearlySpend subs"
  proof -
    have "(\<Sum>s\<leftarrow>subs. cents (amount s) * period_multiplier (billingPeriod s))
            = (\<Sum>s\<leftarrow>subs. 25 * y s)"
    proof (rule arg_cong [where f = sum_list], rule map_cong [OF refl])
      fix s assume "s \<in> set subs"
      from ce [OF this]
      show "cents (amount s) * period_multiplier (billingPeriod s) = 25 * y s"
        by (simp add: y_def)
    qed
    also have "\<dots> = 25 * (\<Sum>s\<leftarrow>subs. y s)"
      by (simp add: sum_list_const_mult)
    finally show ?thesis by (simp add: exact_yearlySpend_def)
  qed
  ultimately show ?thesis
    by (simp add: yearlySpend_foldl)
qed

lemma fl_tenth_times_12:
  "fl (10808639105689191 / 9007199254740992) = Num (1351079888211149 / 1125899906842624)"
  using fl_eval_frac [of 10808639105689191 9007199254740992 52] by simp

lemma fl_six_fifths: "fl (6 / 5) = Num (5404319552844595 / 4503599627370496)"
  using fl_eval_frac [of 6 5 52] by simp

text \<open>
  One monthly subscription of 0.10 has the annual figure 1.2000000000000002: neither the
  exact product 6/5 nor the number nearest to it.
\<close>

theorem yearlySpend_dime:
  "yearlySpend (compute_stats [dime]) = Num (1351079888211149 / 1125899906842624)
   \<and> exact_yearlySpend [dime] = 6 / 5
   \<and> fl (exact_yearlySpend [dime]) = Num (5404319552844595 / 4503599627370496)
   \<and> yearlySpend (compute_stats [dime]) \<noteq> Num (exact_yearlySpend [dime])
   \<and> yearlySpend (compute_stats [dime]) \<noteq> fl (exact_yearlySpend [dime])"
proof -
  have a: "annual_amount dime = Num (1351079888211149 / 1125899906842624)"
    by (simp add: annual_amount_def dime_def netflix_def period_multiplier_simps fl_tenth
        fl_tenth_times_12)
  have y: "yearlySpend (compute_stats [dime]) = Num (1351079888211149 / 1125899906842624)"
    unfolding yearlySpend_foldl
    using fl_idem [OF fl_tenth_times_12] by (simp add: a)
  have e: "exact_yearlySpend [dime] = 6 / 5"
    by (simp add: exact_yearlySpend_def dime_def netflix_def period_multiplier_simps)
  show ?thesis
    unfolding y e by (simp add: fl_six_fifths)
qed

text \<open>
  Claim C6, amended. For every list of subscriptions whose amounts are multiples of 0.25
  and whose annualised absolute total is at most \<open>2^53\<close> quarters, \<open>yearlySpend\<close> equals the
  exact sum over all of them of the amount multiplied by the period multiplier, which is
  12 for monthly, 1 for yearly, 52 for weekly, 4 for quarterly and 1 for custom. One
  monthly subscription of 10.00 gives 120 and one weekly subscription of 5.00 gives 260.
\<close>

theorem yearlySpend_exact:
  "((\<forall>s \<in> set subs. \<exists>k. amount s = Dec (25 * k))
      \<and> (\<Sum>s\<leftarrow>subs. \<bar>cents (amount s)\<bar> * period_multiplier (billingPeriod s)) \<le> 25 * 2 ^ 53
     \<longrightarrow> yearlySpend (compute_stats subs) = Num (exact_yearlySpend subs))
   \<and> map period_multiplier [''monthly'', ''yearly'', ''weekly'', ''quarterly'', ''custom'']
       = [12, 1, 52, 4, 1]
   \<and> yearlySpend (compute_stats [ten_monthly]) = Num 120
   \<and> yearlySpend (compute_stats [five_weekly]) = Num 260"
proof (intro conjI impI)
  assume "(\<forall>s \<in> set subs. \<exists>k. amount s = Dec (25 * k))
      \<and> (\<Sum>s\<leftarrow>subs. \<bar>cents (amount s)\<bar> * period_multiplier (billingPeriod s)) \<le> 25 * 2 ^ 53"
  then show "yearlySpend (compute_stats subs) = Num (exact_yearlySpend subs)"
    by (intro yearlySpend_quarters) simp_all
next
  show "map period_multiplier [''monthly'', ''yearly'', ''weekly'', ''quarterly'', ''custom'']
       = [12, 1, 52, 4, 1]"
    by (simp add: period_multiplier_simps)
next
  show "yearlySpend (compute_stats [ten_monthly]) = Num 120"
    by (simp add: yearlySpend_foldl annual_amount_def period_multiplier_simps ten_monthly_def
        netflix_def fl_10 fl_120)
next
  show "yearlySpend (compute_stats [five_weekly]) = Num 260"
    by (simp add: yearlySpend_foldl annual_amount_def period_multiplier_simps five_weekly_def
        netflix_def fl_5 fl_260)
qed

theorem yearlySpend_exact_witness:
  "amount ten_monthly = Dec (25 * 40) \<and> amount five_weekly = Dec (25 * 20)
   \<and> amount quarterly_2_50 = Dec (25 * 10)
   \<and> (\<Sum>s\<leftarrow>[ten_monthly, five_weekly, quarterly_2_50].
         \<bar>cents (amount s)\<bar> * period_multiplier (billingPeriod s)) \<le> 25 * 2 ^ 53
   \<and> exact_yearlySpend [ten_monthly, five_weekly, quarterly_2_50] = 390
   \<and> yearlySpend (compute_stats [ten_monthly, five_weekly, quarterly_2_50]) = Num 390"
proof -
  have d: "amount ten_monthly = Dec (25 * 40)" "amount five_weekly = Dec (25 * 20)"
    "amount quarterly_2_50 = Dec (25 * 10)"
    by (simp_all add: ten_monthly_def five_weekly_def quarterly_2_50_def netflix_def)
  then have h1: "\<forall>s \<in> set [ten_monthly, five_weekly, quarterly_2_50]. \<exists>k. amount s = Dec (25 * k)"
    by (metis insert_iff list.set(1) list.set(2) empty_iff)
  have h2: "(\<Sum>s\<leftarrow>[ten_monthly, five_weekly, quarterly_2_50].
         \<bar>cents (amount s)\<bar> * period_multiplier (billingPeriod s)) \<le> 25 * 2 ^ 53"
    by (simp add: ten_monthly_def five_weekly_def quarterly_2_50_def netflix_def
        period_multiplier_simps)
  have e: "exact_yearlySpend [ten_monthly, five_weekly, quarterly_2_50] = 390"
    by (simp add: exact_yearlySpend_def ten_monthly_def five_weekly_def quarterly_2_50_def
        netflix_def period_multiplier_simps)
  from yearlySpend_exact [of "[ten_monthly, five_weekly, quarterly_2_50]"] h1 h2
  have "yearlySpend (compute_stats [ten_monthly, five_weekly, quarterly_2_50])
          = Num (exact_yearlySpend [ten_monthly, five_weekly, quarterly_2_50])"
    by blast
  with d h2 e show ?thesis by simp
qed

section \<open>Exactness of the aggregates\<close>

lemma fl_tenth_idem: "fl (3602879701896397 / 36028797018963968) = Num (3602879701896397 / 36028797018963968)"
  by (rule fl_idem [OF fl_tenth])

lemma fl_drift_sum:
  "fl (10808639105689191 / 36028797018963968) = Num (1351079888211149 / 4503599627370496)"
  using fl_eval_frac [of 10808639105689191 36028797018963968 54] by simp

text \<open>
  The amounts 0.10 and 0.20 of two monthly subscriptions add up to 0.30000000000000004:
  neither the exact sum 3/10 nor the number nearest to it.
\<close>

theorem monthlySpend_drift:
  "monthlySpend (compute_stats [dime, two_dimes]) = Num (1351079888211149 / 4503599627370496)
   \<and> exact_monthlySpend [dime, two_dimes] = 3 / 10
   \<and> fl (exact_monthlySpend [dime, two_dimes]) = Num (5404319552844595 / 18014398509481984)
   \<and> monthlySpend (compute_stats [dime, two_dimes]) \<noteq> Num (exact_monthlySpend [dime, two_dimes])
   \<and> monthlySpend (compute_stats [dime, two_dimes]) \<noteq> fl (exact_monthlySpend [dime, two_dimes])"
proof -
  have p1: "parseFloat (amount dime) = Num (3602879701896397 / 36028797018963968)"
    by (simp add: dime_def netflix_def fl_tenth)
  have p2: "parseFloat (amount two_dimes) = Num (3602879701896397 / 18014398509481984)"
    by (simp add: two_dimes_def netflix_def fl_fifth)
  have f: "filter (\<lambda>s. billingPeriod s = ''monthly'') [dime, two_dimes] = [dime, two_dimes]"
    by (simp add: dime_def two_dimes_def netflix_def)
  have m: "monthlySpend (compute_stats [dime, two_dimes])
             = Num (1351079888211149 / 4503599627370496)"
    unfolding monthlySpend_foldl f
    by (simp add: p1 p2 fl_tenth_idem fl_drift_sum)
  have e: "exact_monthlySpend [dime, two_dimes] = 3 / 10"
    by (simp add: exact_monthlySpend_def dime_def two_dimes_def netflix_def)
  show ?thesis
    unfolding m e by (simp add: fl_three_tenths)
qed


text \<open>
  Claim C7, amended. For every list of subscriptions whose amounts are whole numbers (no
  cents) and whose annualised absolute total is at most \<open>2^53\<close>, \<open>monthlySpend\<close> and
  \<open>yearlySpend\<close> of the statistics route, and the monthly total of the subscriptions page,
  equal the exact sums. (The aggregates are computed with binary floating point, so for
  amounts with cents they can differ from the exact sums.)
\<close>

theorem whole_amounts_exact:
  assumes whole: "\<forall>s \<in> set subs. \<exists>k. amount s = Dec (100 * k)"
    and bound: "(\<Sum>s\<leftarrow>subs. \<bar>cents (amount s)\<bar> * period_multiplier (billingPeriod s))
                  \<le> 100 * 2 ^ 53"
  shows "monthlySpend (compute_stats subs) = Num (exact_monthlySpend subs)
       \<and> yearlySpend (compute_stats subs) = Num (exact_yearlySpend subs)
       \<and> getTotalMonthlySpend (Some subs) = Num (exact_monthlySpend subs)"
proof -
  define u :: "subscription \<Rightarrow> int" where "u = (\<lambda>s. cents (amount s) div 100)"
  define y :: "subscription \<Rightarrow> int"
    where "y = (\<lambda>s. u s * period_multiplier (billingPeriod s))"
  let ?monthly = "filter (\<lambda>s. billingPeriod s = ''monthly'') subs"
  have am: "amount s = Dec (100 * u s)" if "s \<in> set subs" for s
    using whole that by (auto simp: u_def)
  have ce: "cents (amount s) = 100 * u s" if "s \<in> set subs" for s
    using am [OF that] by (metis cents.simps(1))
  have "(\<Sum>s\<leftarrow>subs. \<bar>cents (amount s)\<bar> * period_multiplier (billingPeriod s))
          = (\<Sum>s\<leftarrow>subs. 100 * \<bar>y s\<bar>)"
  proof (rule arg_cong [where f = sum_list], rule map_cong [OF refl])
    fix s assume "s \<in> set subs"
    from ce [OF this] period_multiplier_ge_1 [of "billingPeriod s"]
    show "\<bar>cents (amount s)\<bar> * period_multiplier (billingPeriod s) = 100 * \<bar>y s\<bar>"
      by (simp add: y_def abs_mult)
  qed
  also have "\<dots> = 100 * (\<Sum>s\<leftarrow>subs. \<bar>y s\<bar>)"
    by (simp add: sum_list_const_mult)
  finally have ybound: "(\<Sum>s\<leftarrow>subs. \<bar>y s\<bar>) \<le> 2 ^ 53"
    using bound by simp
  have uy: "\<bar>u s\<bar> \<le> \<bar>y s\<bar>" for s
  proof -
    have "\<bar>u s\<bar> * 1 \<le> \<bar>u s\<bar> * period_multiplier (billingPeriod s)"
      by (rule mult_left_mono [OF period_multiplier_ge_1]) simp
    also have "\<dots> = \<bar>y s\<bar>"
      using period_multiplier_ge_1 [of "billingPeriod s"] by (simp add: y_def abs_mult)
    finally show ?thesis by simp
  qed
  have ysmall: "\<bar>y s\<bar> \<le> 2 ^ 53" if "s \<in> set subs" for s
    using abs_le_sum_list [OF that, of y] ybound by simp
  have pf: "parseFloat (amount s) = Num (of_int (u s))" if "s \<in> set subs" for s
  proof -
    from uy [of s] ysmall [OF that] have "\<bar>100 * u s div 100\<bar> \<le> 2 ^ 53" by simp
    from parseFloat_whole [OF _ this] show ?thesis
      by (simp add: am [OF that])
  qed
  have aa: "annual_amount s = Num (of_int (y s))" if "s \<in> set subs" for s
  proof -
    from ysmall [OF that] have "\<bar>u s * period_multiplier (billingPeriod s)\<bar> \<le> 2 ^ 53"
      by (simp only: y_def)
    from num_mul_of_int [OF this] show ?thesis
      by (simp only: annual_amount_def pf [OF that] y_def)
  qed
  have "(\<Sum>s\<leftarrow>?monthly. \<bar>u s\<bar>) \<le> (\<Sum>s\<leftarrow>subs. \<bar>u s\<bar>)"
    by (rule sum_list_filter_abs_le)
  also have "\<dots> \<le> (\<Sum>s\<leftarrow>subs. \<bar>y s\<bar>)"
    by (rule sum_list_abs_mono) (simp add: uy)
  finally have mbound: "\<bar>0\<bar> + (\<Sum>s\<leftarrow>?monthly. \<bar>u s\<bar>) \<le> 2 ^ 53"
    using ybound by simp
  have "foldl (\<lambda>sum s. num_add sum (parseFloat (amount s))) (Num (of_int 0)) ?monthly
          = Num (of_int (0 + (\<Sum>s\<leftarrow>?monthly. u s)))"
    by (rule foldl_num_add_exact [OF _ mbound]) (simp add: pf)
  moreover have "of_int (\<Sum>s\<leftarrow>?monthly. u s) = exact_monthlySpend subs"
  proof -
    have "(\<Sum>s\<leftarrow>?monthly. cents (amount s)) = (\<Sum>s\<leftarrow>?monthly. 100 * u s)"
      by (rule arg_cong [where f = sum_list], rule map_cong [OF refl]) (simp add: ce)
    also have "\<dots> = 100 * (\<Sum>s\<leftarrow>?monthly. u s)"
      by (simp add: sum_list_const_mult)
    finally show ?thesis by (simp add: exact_monthlySpend_def)
  qed
  ultimately have m: "foldl (\<lambda>sum s. num_add sum (parseFloat (amount s))) (Num 0) ?monthly
          = Num (exact_monthlySpend subs)"
    by simp
  have "foldl (\<lambda>sum s. num_add sum (annual_amount s)) (Num (of_int 0)) subs
          = Num (of_int (0 + (\<Sum>s\<leftarrow>subs. y s)))"
  proof (rule foldl_num_add_exact)
    show "\<forall>s \<in> set subs. annual_amount s = Num (of_int (y s))" by (simp add: aa)
    show "\<bar>0\<bar> + (\<Sum>s\<leftarrow>subs. \<bar>y s\<bar>) \<le> 2 ^ 53" using ybound by simp
  qed
  moreover have "of_int (\<Sum>s\<leftarrow>subs. y s) = exact_yearlySpend subs"
  proof -
    have "(\<Sum>s\<leftarrow>subs. cents (amount s) * period_multiplier (billingPeriod s))
            = (\<Sum>s\<leftarrow>subs. 100 * y s)"
    proof (rule arg_cong [where f = sum_list], rule map_cong [OF refl])
      fix s assume "s \<in> set subs"
      from ce [OF this]
      show "cents (amount s) * period_multiplier (billingPeriod s) = 100 * y s"
        by (simp add: y_def)
    qed
    also have "\<dots> = 100 * (\<Sum>s\<leftarrow>subs. y s)"
      by (simp add: sum_list_const_mult)
    finally show ?thesis by (simp add: exact_yearlySpend_def)
  qed
  ultimately have yr: "yearlySpend (compute_stats subs) = Num (exact_yearlySpend subs)"
    by (simp add: yearlySpend_foldl)
  from m yr show ?thesis
    by (simp add: monthlySpend_foldl getTotalMonthlySpend_def)
qed

theorem whole_amounts_exact_witness:
  "amount ten_monthly = Dec (100 * 10) \<and> amount five_weekly = Dec (100 * 5)
   \<and> (\<Sum>s\<leftarrow>[ten_monthly, five_weekly].
         \<bar>cents (amount s)\<bar> * period_multiplier (billingPeriod s)) \<le> 100 * 2 ^ 53
   \<and> monthlySpend (compute_stats [ten_monthly, five_weekly]) = Num 10
   \<and> yearlySpend (compute_stats [ten_monthly, five_weekly]) = Num 380"
proof -
  have d: "amount ten_monthly = Dec (100 * 10)" "amount five_weekly = Dec (100 * 5)"
    by (simp_all add: ten_monthly_def five_weekly_def netflix_def)
  then have h1: "\<forall>s \<in> set [ten_monthly, five_weekly]. \<exists>k. amount s = Dec (100 * k)"
    by (metis insert_iff list.set(1) list.set(2) empty_iff)
  have h2: "(\<Sum>s\<leftarrow>[ten_monthly, five_weekly].
         \<bar>cents (amount s)\<bar> * period_multiplier (billingPeriod s)) \<le> 100 * 2 ^ 53"
    by (simp add: ten_monthly_def five_weekly_def netflix_def period_multiplier_simps)
  have e1: "exact_monthlySpend [ten_monthly, five_weekly] = 10"
    by (simp add: exact_monthlySpend_def ten_monthly_def five_weekly_def netflix_def)
  have e2: "exact_yearlySpend [ten_monthly, five_weekly] = 380"
    by (simp add: exact_yearlySpend_def ten_monthly_def five_weekly_def netflix_def
        period_multiplier_simps)
  from whole_amounts_exact [OF h1 h2] d h2 show ?thesis
    unfolding e1 e2 by simp
qed

section \<open>Properties of the average\<close>

lemma compute_stats_example:
  "compute_stats [ten_monthly, five_weekly]
     = \<lparr>totalSubscriptions = 2, monthlySpend = Num 10, yearlySpend = Num 380\<rparr>"
proof -
  have t: "totalSubscriptions (compute_stats [ten_monthly, five_weekly]) = 2"
    by (simp add: compute_stats_def)
  have m: "monthlySpend (compute_stats [ten_monthly, five_weekly]) = Num 10"
    by (simp add: monthlySpend_foldl ten_monthly_def five_weekly_def netflix_def fl_10)
  have y: "yearlySpend (compute_stats [ten_monthly, five_weekly]) = Num 380"
    by (simp add: yearlySpend_foldl annual_amount_def period_multiplier_simps ten_monthly_def
        five_weekly_def netflix_def fl_10 fl_5 fl_120 fl_260 fl_380)
  from t m y show ?thesis by (cases "compute_stats [ten_monthly, five_weekly]") simp
qed

text \<open>
  Claim C9. \<open>getAverageSpend\<close> is 0 when there are no statistics yet or no subscriptions, and
  otherwise \<open>monthlySpend\<close> divided by the number of subscriptions: the division is only
  reached with a divisor that is not zero, where for a finite \<open>monthlySpend\<close> it is the
  correctly rounded quotient.
\<close>

theorem getAverageSpend_guarded:
  "getAverageSpend None = Num 0
   \<and> getAverageSpend (Some (compute_stats [])) = Num 0
   \<and> (totalSubscriptions st = 0 \<longrightarrow> getAverageSpend (Some st) = Num 0)
   \<and> (0 < totalSubscriptions st \<longrightarrow>
        getAverageSpend (Some st)
          = num_div (monthlySpend st) (Num (of_nat (totalSubscriptions st))))
   \<and> (0 < totalSubscriptions st \<longrightarrow> (\<forall>m. monthlySpend st = Num m \<longrightarrow>
        getAverageSpend (Some st) = fl (m / of_nat (totalSubscriptions st))))"
  by (simp add: getAverageSpend_def compute_stats_def)

theorem getAverageSpend_guarded_witness:
  "totalSubscriptions (compute_stats []) = 0
   \<and> getAverageSpend (Some (compute_stats [])) = Num 0
   \<and> 0 < totalSubscriptions (compute_stats [ten_monthly, five_weekly])
   \<and> monthlySpend (compute_stats [ten_monthly, five_weekly]) = Num 10
   \<and> getAverageSpend (Some (compute_stats [ten_monthly, five_weekly])) = Num 5"
  using getAverageSpend_guarded [of "compute_stats []"]
    getAverageSpend_guarded [of "compute_stats [ten_monthly, five_weekly]"]
    fl_5
  unfolding compute_stats_example
  by (simp add: compute_stats_def)


end
